theory Spec2Isabelle
  imports Main "HOL-Library.Sublist"
begin

unbundle bit_operations_syntax


section \<open>JavaScript values used by jsmime\<close>

text \<open>
  A JavaScript string is modelled as a \<^typ>\<open>string\<close>, one \<^typ>\<open>char\<close> per code unit;
  the code units are those of a binary string (0..255), which is what the MIME parser
  consumes and what every literal compared against in the sources is made of.
  An exception thrown by the code is a value of type \<open>js_error\<close>.
\<close>

datatype js_error =
    Error string
  | InvalidCharacterError
  | RangeError

definition CR :: char where
  "CR = CHR 0x0D"

definition LF :: char where
  "LF = CHR 0x0A"

definition TAB :: char where
  "TAB = CHR 0x09"

definition CRLF :: string where
  "CRLF = [CR, LF]"

text \<open>The code units below 256 that \<open>String.prototype.trim\<close> and friends strip
  (WhiteSpace and LineTerminator of ECMAScript).\<close>

definition js_whitespace :: "char \<Rightarrow> bool" where
  "js_whitespace c \<longleftrightarrow>
     c = CHR 0x09 \<or> c = CHR 0x0A \<or> c = CHR 0x0B \<or> c = CHR 0x0C \<or> c = CHR 0x0D \<or>
     c = CHR 0x20 \<or> c = CHR 0xA0"

definition trimLeft :: "string \<Rightarrow> string" where
  "trimLeft s = dropWhile js_whitespace s"

definition trimRight :: "string \<Rightarrow> string" where
  "trimRight s = rev (dropWhile js_whitespace (rev s))"

definition trim :: "string \<Rightarrow> string" where
  "trim s = trimRight (trimLeft s)"

text \<open>\<open>String.prototype.toLowerCase\<close> on code units below 256: the ASCII capitals and
  the Latin-1 capitals U+00C0..U+00DE (U+00D7, the multiplication sign, excepted) have
  their small letter 32 code units above, which is the same code unit with bit 5 set.\<close>

definition is_upper :: "char \<Rightarrow> bool" where
  "is_upper c \<longleftrightarrow>
     (let n = (of_char c :: nat) in
      (65 \<le> n \<and> n \<le> 90) \<or> (192 \<le> n \<and> n \<le> 222 \<and> n \<noteq> 215))"

definition lower_char :: "char \<Rightarrow> char" where
  "lower_char c =
     (if is_upper c
      then (case c of Char b0 b1 b2 b3 b4 b5 b6 b7 \<Rightarrow> Char b0 b1 b2 b3 b4 True b6 b7)
      else c)"

definition toLowerCase :: "string \<Rightarrow> string" where
  "toLowerCase s = map lower_char s"


section \<open>headeremitter: margins and the line buffer\<close>

text \<open>\<open>clamp(value, min, max, def)\<close>; an undefined \<open>value\<close> is \<open>None\<close>.\<close>

definition clamp :: "int option \<Rightarrow> int \<Rightarrow> int \<Rightarrow> int \<Rightarrow> int" where
  "clamp val mn mx def =
     (case val of
        None \<Rightarrow> def
      | Some v \<Rightarrow> if v < mn then mn else if v > mx then mx else v)"

record emitter_options =
  opt_softMargin :: "int option"
  opt_hardMargin :: "int option"
  opt_useASCII :: "bool option"

text \<open>The emitter object. The handler is the sink; what it has been sent by
  \<open>deliverData\<close> is kept as the list of the delivered strings, in order, and
  \<open>deliverEOF\<close> sets \<open>eof_delivered\<close>.\<close>

record emitter =
  useASCII :: bool
  delivered :: "string list"
  eof_delivered :: bool
  currentLine :: string
  softMargin :: int
  hardMargin :: int
  preferredBreakpoint :: nat

definition HeaderEmitter :: "emitter_options \<Rightarrow> emitter" where
  "HeaderEmitter options =
     (let soft = clamp (opt_softMargin options) 30 900 78 in
      \<lparr> useASCII = (case opt_useASCII options of None \<Rightarrow> True | Some b \<Rightarrow> b),
        delivered = [],
        eof_delivered = False,
        currentLine = [],
        softMargin = soft,
        hardMargin = clamp (opt_hardMargin options) soft 998 332,
        preferredBreakpoint = 0 \<rparr>)"

definition deliverData :: "string \<Rightarrow> emitter \<Rightarrow> emitter" where
  "deliverData str em = em\<lparr>delivered := delivered em @ [str]\<rparr>"

text \<open>\<open>_commitLine(count)\<close>; a missing \<open>count\<close> is \<open>None\<close>. The local \<open>shift\<close> of the
  source is computed and never read, so it has no counterpart here.\<close>

definition commitLine :: "nat option \<Rightarrow> emitter \<Rightarrow> emitter" where
  "commitLine count em =
     (let firstN = (case count of
                      Some n \<Rightarrow> trimRight (take n (currentLine em))
                    | None \<Rightarrow> trimRight (currentLine em));
          lastN = (case count of
                     Some n \<Rightarrow> trimLeft (drop n (currentLine em))
                   | None \<Rightarrow> []);
          em1 = deliverData (firstN @ CRLF) em;
          em2 = em1\<lparr>currentLine := lastN\<rparr>;
          em3 = (if count \<noteq> None then em2\<lparr>currentLine := CHR 0x20 # currentLine em2\<rparr> else em2)
      in em3\<lparr>preferredBreakpoint := 0\<rparr>)"






definition finish :: "bool \<Rightarrow> emitter \<Rightarrow> emitter" where
  "finish deliverEOF em =
     (let em1 = commitLine None em in
      if deliverEOF then em1\<lparr>eof_delivered := True\<rparr> else em1)"






section \<open>Maps and sets\<close>

text \<open>A JavaScript \<open>Map\<close> is an association list in insertion order with distinct keys,
  a \<open>Set\<close> a list without repetitions.\<close>

fun Map_set :: "'k \<Rightarrow> 'v \<Rightarrow> ('k \<times> 'v) list \<Rightarrow> ('k \<times> 'v) list" where
  "Map_set k v [] = [(k, v)]"
| "Map_set k v (p # ps) = (if fst p = k then (k, v) # ps else p # Map_set k v ps)"

fun Map_get :: "('k \<times> 'v) list \<Rightarrow> 'k \<Rightarrow> 'v option" where
  "Map_get [] k = None"
| "Map_get (p # ps) k = (if fst p = k then Some (snd p) else Map_get ps k)"

definition Map_has :: "('k \<times> 'v) list \<Rightarrow> 'k \<Rightarrow> bool" where
  "Map_has m k \<longleftrightarrow> Map_get m k \<noteq> None"

definition Set_add :: "'k \<Rightarrow> 'k list \<Rightarrow> 'k list" where
  "Set_add k s = (if k \<in> set s then s else s @ [k])"

definition Set_has :: "'k list \<Rightarrow> 'k \<Rightarrow> bool" where
  "Set_has s k \<longleftrightarrow> k \<in> set s"



section \<open>mimeutils: the octet decoders\<close>

text \<open>\<open>String.fromCharCode\<close> for a code below 256.\<close>

definition fromCharCode :: "nat \<Rightarrow> char" where
  "fromCharCode n =
     Char (odd n) (odd (n div 2)) (odd (n div 4)) (odd (n div 8))
          (odd (n div 16)) (odd (n div 32)) (odd (n div 64)) (odd (n div 128))"

definition is_hex_digit :: "char \<Rightarrow> bool" where
  "is_hex_digit c \<longleftrightarrow>
     (let n = (of_char c :: nat) in
      (48 \<le> n \<and> n \<le> 57) \<or> (65 \<le> n \<and> n \<le> 70) \<or> (97 \<le> n \<and> n \<le> 102))"

definition hex_value :: "char \<Rightarrow> nat" where
  "hex_value c =
     (let n = (of_char c :: nat) in
      if 48 \<le> n \<and> n \<le> 57 then n - 48
      else if 65 \<le> n \<and> n \<le> 70 then n - 55
      else n - 87)"

text \<open>What the second alternative of the regular expression of \<open>decode_qp\<close> matches
  after an \<open>=\<close>: blanks and tabs, then CR LF, a lone CR or LF, or the end of the
  input. The result is the input that follows the match.\<close>

fun qp_line_end :: "string \<Rightarrow> string option" where
  "qp_line_end [] = Some []"
| "qp_line_end (c # cs) =
     (if c = CHR 0x0D then (case cs of d # ds \<Rightarrow> if d = CHR 0x0A then Some ds else Some cs
                                      | [] \<Rightarrow> Some cs)
      else if c = CHR 0x0A then Some cs
      else None)"

definition qp_soft_break :: "string \<Rightarrow> string option" where
  "qp_soft_break cs = qp_line_end (dropWhile (\<lambda>c. c = CHR 0x20 \<or> c = CHR 0x09) cs)"

text \<open>The global \<open>replace\<close> of \<open>decode_qp\<close>: at an \<open>=\<close> followed by two hexadecimal
  digits (of either case) the three characters become the character with that code; at
  an \<open>=\<close> followed by a soft line break everything matched is dropped; every other
  character is kept.\<close>

function qp_replace :: "string \<Rightarrow> string" where
  "qp_replace [] = []"
| "qp_replace (c # cs) =
     (if c = CHR ''=''
      then (case cs of
              h1 # h2 # rest \<Rightarrow>
                if is_hex_digit h1 \<and> is_hex_digit h2
                then fromCharCode (16 * hex_value h1 + hex_value h2) # qp_replace rest
                else (case qp_soft_break cs of
                        Some rest' \<Rightarrow> qp_replace rest'
                      | None \<Rightarrow> c # qp_replace cs)
            | _ \<Rightarrow>
                (case qp_soft_break cs of
                   Some rest' \<Rightarrow> qp_replace rest'
                 | None \<Rightarrow> c # qp_replace cs))
      else c # qp_replace cs)"
  by pat_completeness auto

lemma length_qp_line_end: "qp_line_end cs = Some r \<Longrightarrow> length r \<le> length cs"
  by (cases cs) (auto split: if_splits list.splits)

lemma length_qp_soft_break: "qp_soft_break cs = Some r \<Longrightarrow> length r \<le> length cs"
  using length_qp_line_end [of "dropWhile (\<lambda>c. c = CHR 0x20 \<or> c = CHR 0x09) cs" r]
    length_dropWhile_le [of "\<lambda>c. c = CHR 0x20 \<or> c = CHR 0x09" cs]
  by (simp add: qp_soft_break_def)

termination qp_replace
  by (relation "measure length") (auto dest: length_qp_soft_break)

text \<open>\<open>decode_qp(buffer, more)\<close>.\<close>

definition decode_qp :: "string \<Rightarrow> bool \<Rightarrow> string \<times> string" where
  "decode_qp buffer more' = (qp_replace buffer, [])"

text \<open>The characters that the sanitizing \<open>replace\<close> of \<open>decode_base64\<close> keeps.\<close>

definition is_base64_alnum :: "char \<Rightarrow> bool" where
  "is_base64_alnum c \<longleftrightarrow>
     (let n = (of_char c :: nat) in
      (65 \<le> n \<and> n \<le> 90) \<or> (97 \<le> n \<and> n \<le> 122) \<or> (48 \<le> n \<and> n \<le> 57) \<or>
      c = CHR ''+'' \<or> c = CHR ''/'')"

definition is_base64_char :: "char \<Rightarrow> bool" where
  "is_base64_char c \<longleftrightarrow> is_base64_alnum c \<or> c = CHR ''=''"

text \<open>\<open>atob\<close> is the function of the platform's global scope (HTML Standard,
  forgiving-base64 decode): ASCII whitespace is removed; when the length is a multiple of
  four, one or two final \<open>=\<close> are removed; a length of 1 modulo 4, or any character left
  outside the 64 of the alphabet, is an \<open>InvalidCharacterError\<close>; else every four
  characters give three octets, and two or three remaining characters one or two.\<close>

definition is_ascii_whitespace :: "char \<Rightarrow> bool" where
  "is_ascii_whitespace c \<longleftrightarrow>
     c = CHR 0x09 \<or> c = CHR 0x0A \<or> c = CHR 0x0C \<or> c = CHR 0x0D \<or> c = CHR 0x20"

definition base64_value :: "char \<Rightarrow> nat" where
  "base64_value c =
     (let n = (of_char c :: nat) in
      if 65 \<le> n \<and> n \<le> 90 then n - 65
      else if 97 \<le> n \<and> n \<le> 122 then n - 71
      else if 48 \<le> n \<and> n \<le> 57 then n + 4
      else if c = CHR ''+'' then 62
      else 63)"

fun base64_octets :: "nat list \<Rightarrow> string" where
  "base64_octets (a # b # c # d # rest) =
     fromCharCode (a * 4 + b div 16) # fromCharCode ((b mod 16) * 16 + c div 4) #
     fromCharCode ((c mod 4) * 64 + d) # base64_octets rest"
| "base64_octets [a, b, c] = [fromCharCode (a * 4 + b div 16), fromCharCode ((b mod 16) * 16 + c div 4)]"
| "base64_octets [a, b] = [fromCharCode (a * 4 + b div 16)]"
| "base64_octets _ = []"

definition strip_padding :: "string \<Rightarrow> string" where
  "strip_padding s =
     (if length s mod 4 = 0 \<and> s \<noteq> [] \<and> last s = CHR ''=''
      then (if butlast s \<noteq> [] \<and> last (butlast s) = CHR ''=''
            then butlast (butlast s) else butlast s)
      else s)"

definition atob :: "string \<Rightarrow> js_error + string" where
  "atob s =
     (let d = strip_padding (filter (\<lambda>c. \<not> is_ascii_whitespace c) s) in
      if length d mod 4 = 1 \<or> (\<exists>c \<in> set d. \<not> is_base64_alnum c)
      then Inl InvalidCharacterError
      else Inr (base64_octets (map base64_value d)))"

text \<open>\<open>decode_base64(buffer, more)\<close>; \<open>sanitize.slice(-excess)\<close> is the last \<open>excess\<close>
  characters, \<open>excess\<close> being smaller than 4 and not above the length.\<close>

definition decode_base64 :: "string \<Rightarrow> bool \<Rightarrow> js_error + string \<times> string" where
  "decode_base64 buffer more' =
     (let sanitize = filter is_base64_char buffer;
          excess = length sanitize mod 4;
          buffer' = (if excess \<noteq> 0 \<and> more'
                     then drop (length sanitize - excess) sanitize else []);
          sanitize' = take (length sanitize - excess) sanitize
      in case atob sanitize' of
           Inl e \<Rightarrow> Inl e
         | Inr decoded \<Rightarrow> Inr (decoded, buffer'))"


section \<open>headerparser: RFC 2047 encoded-words\<close>

text \<open>\<open>TextDecoder\<close> belongs to the platform and knows many charsets, so it is a
  parameter: \<open>td_new label\<close> is \<open>new TextDecoder(label, {fatal: false})\<close>, \<open>None\<close> when the
  constructor throws because the label is not recognized; \<open>td_stream d octets\<close> is
  \<open>d.decode(octets, {stream: true})\<close>, the text and the decoder with the octets it holds
  back; \<open>td_flush d\<close> is \<open>d.decode()\<close>; \<open>td_fatal label octets\<close> is
  \<open>new TextDecoder(label, {fatal: true}).decode(octets)\<close>, \<open>None\<close> when that throws.\<close>

record 'd text_decoding =
  td_new :: "string \<Rightarrow> 'd option"
  td_stream :: "'d \<Rightarrow> string \<Rightarrow> string \<times> 'd"
  td_flush :: "'d \<Rightarrow> string"
  td_fatal :: "string \<Rightarrow> string \<Rightarrow> string option"

text \<open>\<open>s.slice(a, b)\<close> and \<open>s.split(c)\<close> for a one-character separator.\<close>

definition slice :: "nat \<Rightarrow> nat \<Rightarrow> string \<Rightarrow> string" where
  "slice a b s = take (b - a) (drop a s)"

fun split_on :: "char \<Rightarrow> string \<Rightarrow> string list" where
  "split_on sep [] = [[]]"
| "split_on sep (c # cs) =
     (case split_on sep cs of
        p # ps \<Rightarrow> if c = sep then [] # p # ps else (c # p) # ps
      | [] \<Rightarrow> [])"

definition is_wsp :: "char \<Rightarrow> bool" where
  "is_wsp c \<longleftrightarrow> c = CHR 0x20 \<or> c = CHR 0x09 \<or> c = CHR 0x0D \<or> c = CHR 0x0A"

definition is_BQ :: "char \<Rightarrow> bool" where
  "is_BQ c \<longleftrightarrow> c = CHR ''B'' \<or> c = CHR ''Q'' \<or> c = CHR ''b'' \<or> c = CHR ''q''"

definition not_qmark :: "char \<Rightarrow> bool" where
  "not_qmark c \<longleftrightarrow> c \<noteq> CHR ''?''"

text \<open>The regular expression \<open>=\?[^?]*\?[BQbq]\?[^?]*\?=\<close> tried at the start of a
  string: the length of the match. No step of it has a choice (\<open>[^?]*\<close> must stop at
  the next question mark), so there is at most one match.\<close>

definition after_text_field :: "string \<Rightarrow> nat option" where
  "after_text_field s =
     (case dropWhile not_qmark s of
        q # e # _ \<Rightarrow> if e = CHR ''='' then Some (length (takeWhile not_qmark s) + 2) else None
      | _ \<Rightarrow> None)"

definition after_charset_field :: "string \<Rightarrow> nat option" where
  "after_charset_field s =
     (case dropWhile not_qmark s of
        q # e # q' # rest \<Rightarrow>
          if is_BQ e \<and> q' = CHR ''?''
          then (case after_text_field rest of
                  Some n \<Rightarrow> Some (length (takeWhile not_qmark s) + 3 + n)
                | None \<Rightarrow> None)
          else None
      | _ \<Rightarrow> None)"

definition encoded_word_at :: "string \<Rightarrow> nat option" where
  "encoded_word_at s =
     (case s of
        a # b # rest \<Rightarrow>
          if a = CHR ''='' \<and> b = CHR ''?''
          then (case after_charset_field rest of Some n \<Rightarrow> Some (2 + n) | None \<Rightarrow> None)
          else None
      | _ \<Rightarrow> None)"

text \<open>\<open>headerValue.split(/(=\?[^?]*\?[BQbq]\?[^?]*\?=)/)\<close>: the text before the first
  match, the match, the text up to the next match, and so on; the last component is the
  text after the last match. \<open>split_words acc s\<close> has read \<open>rev acc\<close> since the last match.\<close>

function split_words :: "string \<Rightarrow> string \<Rightarrow> string list" where
  "split_words acc [] = [rev acc]"
| "split_words acc (c # cs) =
     (case encoded_word_at (c # cs) of
        Some n \<Rightarrow> rev acc # take n (c # cs) # split_words [] (drop n (c # cs))
      | None \<Rightarrow> split_words (c # acc) cs)"
  by pat_completeness auto

lemma encoded_word_at_pos: "encoded_word_at s = Some n \<Longrightarrow> 0 < n"
  by (auto simp: encoded_word_at_def split: list.splits if_splits option.splits)

termination split_words
  by (relation "measure (\<lambda>(acc, s). length s)") (auto dest: encoded_word_at_pos)

text \<open>The state that \<open>decode2047Token\<close> closes over.\<close>

record 'd words_state =
  lastCharset :: string
  currentDecoder :: "'d option"

text \<open>\<open>decode2047Token(token)\<close>: an exception, or the result (\<open>None\<close> for \<open>false\<close>) with
  the state as the call leaves it.\<close>

definition decode_word_text :: "string \<Rightarrow> string \<Rightarrow> (js_error + string) option" where
  "decode_word_text encoding text =
     (if encoding = ''B'' \<or> encoding = ''b'' then
        if \<exists>c \<in> set text. \<not> is_base64_char c then None
        else
          let text' = (if length text mod 4 = 1 \<and> last text = CHR ''='' then butlast text
                       else text)
          in (case decode_base64 text' False of
                Inl e \<Rightarrow> Some (Inl e)
              | Inr r \<Rightarrow> Some (Inr (fst r)))
      else if encoding = ''Q'' \<or> encoding = ''q'' then
        Some (Inr (fst (decode_qp (map (\<lambda>c. if c = CHR ''_'' then CHR 0x20 else c) text) False)))
      else None)"

definition decode2047Token ::
  "'d text_decoding \<Rightarrow> 'd words_state \<Rightarrow> string \<Rightarrow> js_error + (string option \<times> 'd words_state)" where
  "decode2047Token td st token =
     (case split_on (CHR ''?'') token of
        [p0, p1, p2, p3, p4] \<Rightarrow>
          if p4 \<noteq> ''='' then Inr (None, st)
          else
            (case decode_word_text p2 p3 of
               None \<Rightarrow> Inr (None, st)
             | Some (Inl e) \<Rightarrow> Inl e
             | Some (Inr buffer) \<Rightarrow>
                 let charset = takeWhile (\<lambda>c. c \<noteq> CHR ''*'') p1;
                     flushing = (charset \<noteq> lastCharset st \<and> currentDecoder st \<noteq> None);
                     output = (case currentDecoder st of
                                 Some d \<Rightarrow> if flushing then td_flush td d else []
                               | None \<Rightarrow> []);
                     decoder = (if flushing then None else currentDecoder st)
                 in (case decoder of
                       Some d \<Rightarrow>
                         Inr (Some (output @ fst (td_stream td d buffer)),
                              \<lparr> lastCharset = charset,
                                currentDecoder = Some (snd (td_stream td d buffer)) \<rparr>)
                     | None \<Rightarrow>
                         (case td_new td charset of
                            None \<Rightarrow> Inr (None, \<lparr> lastCharset = charset, currentDecoder = None \<rparr>)
                          | Some d \<Rightarrow>
                              Inr (Some (output @ fst (td_stream td d buffer)),
                                   \<lparr> lastCharset = charset,
                                     currentDecoder = Some (snd (td_stream td d buffer)) \<rparr>))))
      | _ \<Rightarrow> Inr (None, st))"

text \<open>The loop of \<open>decodeRFC2047Words\<close> over the components: the rewritten components,
  or the exception that \<open>atob\<close> threw.\<close>

definition flush_component :: "'d text_decoding \<Rightarrow> 'd words_state \<Rightarrow> string \<Rightarrow> string" where
  "flush_component td st c =
     (case currentDecoder st of Some d \<Rightarrow> td_flush td d @ c | None \<Rightarrow> c)"

fun decode_components ::
  "'d text_decoding \<Rightarrow> 'd words_state \<Rightarrow> string list \<Rightarrow> js_error + string list" where
  "decode_components td st [] = Inr []"
| "decode_components td st (c # cs) =
     (if take 2 c = ''=?'' then
        (case decode2047Token td st c of
           Inl e \<Rightarrow> Inl e
         | Inr (Some decoded, st') \<Rightarrow>
             (case decode_components td st' cs of
                Inl e \<Rightarrow> Inl e
              | Inr ds \<Rightarrow> Inr (decoded # ds))
         | Inr (None, st') \<Rightarrow>
             (case decode_components td \<lparr> lastCharset = [], currentDecoder = None \<rparr> cs of
                Inl e \<Rightarrow> Inl e
              | Inr ds \<Rightarrow> Inr (flush_component td st' c # ds)))
      else if \<forall>x \<in> set c. is_wsp x then
        (case decode_components td st cs of
           Inl e \<Rightarrow> Inl e
         | Inr ds \<Rightarrow> Inr ([] # ds))
      else
        (case decode_components td \<lparr> lastCharset = [], currentDecoder = None \<rparr> cs of
           Inl e \<Rightarrow> Inl e
         | Inr ds \<Rightarrow> Inr (flush_component td st c # ds)))"

definition decodeRFC2047Words :: "'d text_decoding \<Rightarrow> string \<Rightarrow> js_error + string" where
  "decodeRFC2047Words td headerValue =
     (case decode_components td \<lparr> lastCharset = [], currentDecoder = None \<rparr>
             (split_words [] headerValue) of
        Inl e \<Rightarrow> Inl e
      | Inr ds \<Rightarrow> Inr (concat ds))"




section \<open>headerparser: the header tokenizer\<close>

record header_opts =
  qstring :: bool
  dliteral :: bool
  comments :: bool
  rfc2047 :: bool

text \<open>An element of the token list: a delimiter (a one-character string in the
  source), a \<open>Token\<close> object, or the object made for a run of encoded-words, whose
  \<open>toString\<close> gives the decoded text.\<close>

datatype token = Delimiter char | Token string | EncodedWords string

fun token_toString :: "token \<Rightarrow> string" where
  "token_toString (Delimiter c) = [c]"
| "token_toString (Token s) = s"
| "token_toString (EncodedWords s) = s"

text \<open>The constructor \<open>Token(token)\<close> stores \<open>token.replace(/\\(.?)/g, "$1")\<close>: a
  backslash and the character after it become that character; \<open>.\<close> matches no line
  terminator, so a backslash before one, or at the end, is just deleted.\<close>

definition is_line_terminator :: "char \<Rightarrow> bool" where
  "is_line_terminator c \<longleftrightarrow> c = CHR 0x0A \<or> c = CHR 0x0D"

fun unescape :: "string \<Rightarrow> string" where
  "unescape [] = []"
| "unescape [c] = (if c = CHR 0x5C then [] else [c])"
| "unescape (c # d # cs) =
     (if c = CHR 0x5C
      then (if is_line_terminator d then unescape (d # cs) else d # unescape cs)
      else c # unescape (d # cs))"

definition new_Token :: "string \<Rightarrow> token" where
  "new_Token text = Token (unescape text)"

text \<open>The regular expression \<open>([ \t\r\n]*=\?[^?]*\?[BbQq]\?[^?]*\?=)+\<close> of the
  tokenizer. One round of the group at the start of a string, then as many rounds as
  match; \<open>exec\<close> takes the first position of the string where the expression matches,
  and the tokenizer reads only the length of the match.\<close>

definition encoded_group_at :: "string \<Rightarrow> nat option" where
  "encoded_group_at s =
     (case encoded_word_at (dropWhile is_wsp s) of
        Some n \<Rightarrow> Some (length (takeWhile is_wsp s) + n)
      | None \<Rightarrow> None)"

function encoded_groups_at :: "string \<Rightarrow> nat option" where
  "encoded_groups_at s =
     (case encoded_group_at s of
        None \<Rightarrow> None
      | Some n \<Rightarrow>
          (case encoded_groups_at (drop n s) of
             None \<Rightarrow> Some n
           | Some m \<Rightarrow> Some (n + m)))"
  by pat_completeness auto

lemma encoded_group_at_bounds:
  "encoded_group_at s = Some n \<Longrightarrow> 0 < n \<and> s \<noteq> []"
  by (auto simp: encoded_group_at_def encoded_word_at_def split: option.splits list.splits if_splits)

termination encoded_groups_at
  by (relation "measure length") (auto dest: encoded_group_at_bounds)

declare encoded_groups_at.simps [simp del]

fun encodedWordsRE_exec :: "string \<Rightarrow> nat option" where
  "encodedWordsRE_exec [] = encoded_groups_at []"
| "encodedWordsRE_exec (c # cs) =
     (case encoded_groups_at (c # cs) of
        Some n \<Rightarrow> Some n
      | None \<Rightarrow> encodedWordsRE_exec cs)"

text \<open>The state of the loop of \<open>getHeaderTokens\<close>.\<close>

record tokenizer =
  tokenList :: "token list"
  tokenStart :: "nat option"
  endQuote :: "char option"
  commentDepth :: nat

text \<open>\<open>value.slice(tokenStart, \<dots>)\<close>; with \<open>tokenStart\<close> undefined the slice would begin
  at 0.\<close>

definition start_index :: "tokenizer \<Rightarrow> nat" where
  "start_index tk = (case tokenStart tk of Some n \<Rightarrow> n | None \<Rightarrow> 0)"

definition push :: "token \<Rightarrow> tokenizer \<Rightarrow> tokenizer" where
  "push t tk = tk\<lparr>tokenList := tokenList tk @ [t]\<rparr>"

text \<open>The part of the loop body after the checks for a backslash, an open quote and
  encoded-words: what the character \<open>ch\<close> at index \<open>i\<close> does to the state.\<close>

definition classify_char ::
  "string \<Rightarrow> string \<Rightarrow> header_opts \<Rightarrow> nat \<Rightarrow> char \<Rightarrow> tokenizer \<Rightarrow> tokenizer" where
  "classify_char val delimiters opts i ch tk =
     (let wspace = is_wsp ch;
          delim = (\<not> wspace \<and> commentDepth tk = 0 \<and> ch \<in> set delimiters);
          quote = (\<not> wspace \<and> \<not> delim \<and> qstring opts \<and> ch = CHR 0x22);
          bracket = (\<not> wspace \<and> \<not> delim \<and> \<not> quote \<and> dliteral opts \<and> ch = CHR ''['');
          copen = (\<not> wspace \<and> \<not> delim \<and> \<not> quote \<and> \<not> bracket \<and> comments opts \<and> ch = CHR ''('');
          cclose = (\<not> wspace \<and> \<not> delim \<and> \<not> quote \<and> \<not> bracket \<and> \<not> copen \<and>
                      comments opts \<and> ch = CHR '')'');
          tokenIsEnding = (wspace \<or> delim \<or> quote \<or> bracket \<or> copen \<or> cclose);
          tokenIsStarting = (quote \<or> bracket \<or> \<not> tokenIsEnding);
          isSpecial = (delim \<or> copen \<or> cclose);
          tk1 = (if quote then tk\<lparr>endQuote := Some ch\<rparr>
                 else if bracket then tk\<lparr>endQuote := Some (CHR '']'')\<rparr>
                 else if copen then tk\<lparr>commentDepth := commentDepth tk + 1\<rparr>
                 else if cclose \<and> commentDepth tk > 0 then tk\<lparr>commentDepth := commentDepth tk - 1\<rparr>
                 else tk);
          tk2 = (if tokenIsEnding \<and> tokenStart tk1 \<noteq> None
                 then (push (new_Token (slice (start_index tk1) i val)) tk1)\<lparr>tokenStart := None\<rparr>
                 else tk1);
          tk3 = (if isSpecial then push (Delimiter ch) tk2 else tk2)
      in if tokenIsStarting \<and> tokenStart tk3 = None then tk3\<lparr>tokenStart := Some i\<rparr> else tk3)"

text \<open>The character \<open>ch\<close> at index \<open>i\<close> while a quoted string or a domain literal is open.\<close>

definition in_quote ::
  "'d text_decoding \<Rightarrow> string \<Rightarrow> header_opts \<Rightarrow> nat \<Rightarrow> char \<Rightarrow> tokenizer \<Rightarrow> js_error + tokenizer" where
  "in_quote td val opts i ch tk =
     (if endQuote tk = Some ch \<and> ch = CHR 0x22 then
        let text = slice (start_index tk + 1) i val in
        if rfc2047 opts \<and> take 2 text = ''=?'' \<and> 2 \<le> length text \<and>
           drop (length text - 2) text = ''?=''
        then (case decodeRFC2047Words td text of
                Inl e \<Rightarrow> Inl e
              | Inr text' \<Rightarrow> Inr ((push (new_Token text') tk)\<lparr>endQuote := None, tokenStart := None\<rparr>))
        else Inr ((push (new_Token text) tk)\<lparr>endQuote := None, tokenStart := None\<rparr>)
      else if endQuote tk = Some ch \<and> ch = CHR '']'' then
        Inr ((push (new_Token (slice (start_index tk) (i + 1) val)) tk)
               \<lparr>endQuote := None, tokenStart := None\<rparr>)
      else Inr tk)"

text \<open>A run of encoded-words of length \<open>len\<close> found at index \<open>i\<close>.\<close>

definition encoded_run ::
  "'d text_decoding \<Rightarrow> string \<Rightarrow> nat \<Rightarrow> nat \<Rightarrow> tokenizer \<Rightarrow> js_error + tokenizer" where
  "encoded_run td val i len tk =
     (let tk1 = (if tokenStart tk \<noteq> None
                 then (push (new_Token (slice (start_index tk) i val)) tk)\<lparr>tokenStart := None\<rparr>
                 else tk)
      in case decodeRFC2047Words td (slice i (i + len) val) of
           Inl e \<Rightarrow> Inl e
         | Inr string \<Rightarrow> Inr (push (EncodedWords string) tk1))"

definition encoded_words_here :: "header_opts \<Rightarrow> string \<Rightarrow> nat \<Rightarrow> nat option" where
  "encoded_words_here opts val i =
     (if rfc2047 opts \<and> val ! i = CHR ''='' \<and> i + 1 < length val \<and> val ! (i + 1) = CHR ''?''
      then encodedWordsRE_exec (drop i val) else None)"

lemma encoded_groups_at_pos: "encoded_groups_at s = Some n \<Longrightarrow> 0 < n"
proof -
  assume a: "encoded_groups_at s = Some n"
  then obtain k where k: "encoded_group_at s = Some k"
    by (subst (asm) encoded_groups_at.simps) (auto split: option.splits)
  then have "0 < k" by (auto dest: encoded_group_at_bounds)
  moreover have "k \<le> n"
    using a k by (subst (asm) encoded_groups_at.simps) (auto split: option.splits)
  ultimately show ?thesis by simp
qed

lemma encodedWordsRE_exec_pos: "encodedWordsRE_exec s = Some n \<Longrightarrow> 0 < n"
  by (induction s) (auto split: option.splits dest: encoded_groups_at_pos)

lemma encoded_words_here_pos: "encoded_words_here opts val i = Some n \<Longrightarrow> 0 < n"
  by (auto simp: encoded_words_here_def split: if_splits dest: encodedWordsRE_exec_pos)

text \<open>The loop over the characters of \<open>value\<close>, from index \<open>i\<close>.\<close>

function tokens_from ::
  "'d text_decoding \<Rightarrow> string \<Rightarrow> string \<Rightarrow> header_opts \<Rightarrow> nat \<Rightarrow> tokenizer \<Rightarrow> js_error + tokenizer" where
  "tokens_from td val delimiters opts i tk =
     (if i < length val then
        if val ! i = CHR 0x5C then tokens_from td val delimiters opts (i + 2) tk
        else if endQuote tk \<noteq> None then
          (case in_quote td val opts i (val ! i) tk of
             Inl e \<Rightarrow> Inl e
           | Inr tk' \<Rightarrow> tokens_from td val delimiters opts (i + 1) tk')
        else
          (case encoded_words_here opts val i of
             Some len \<Rightarrow>
               (case encoded_run td val i len tk of
                  Inl e \<Rightarrow> Inl e
                | Inr tk' \<Rightarrow> tokens_from td val delimiters opts (i + len) tk')
           | None \<Rightarrow>
               tokens_from td val delimiters opts (i + 1)
                 (classify_char val delimiters opts i (val ! i) tk))
      else Inr tk)"
  by pat_completeness auto
termination
  by (relation "measure (\<lambda>(td, val, delimiters, opts, i, tk). length val - i)")
     (auto dest: encoded_words_here_pos)

declare tokens_from.simps [simp del]

text \<open>\<open>getHeaderTokens(value, delimiters, opts)\<close>.\<close>

definition getHeaderTokens ::
  "'d text_decoding \<Rightarrow> string \<Rightarrow> string \<Rightarrow> header_opts \<Rightarrow> js_error + token list" where
  "getHeaderTokens td val delimiters opts =
     (case tokens_from td val delimiters opts 0
             \<lparr> tokenList = [], tokenStart = None, endQuote = None, commentDepth = 0 \<rparr> of
        Inl e \<Rightarrow> Inl e
      | Inr tk \<Rightarrow>
          (case tokenStart tk of
             Some n \<Rightarrow>
               if endQuote tk = Some (CHR 0x22)
               then Inr (tokenList tk @ [new_Token (drop (n + 1) val)])
               else Inr (tokenList tk @ [new_Token (drop n val)])
           | None \<Rightarrow> Inr (tokenList tk)))"

text \<open>A text-decoding facility for the examples: it knows the labels \<open>utf-8\<close> and
  \<open>us-ascii\<close> and decodes octets below 128, which is all the examples give it, to
  themselves.\<close>

definition example_decoding :: "unit text_decoding" where
  "example_decoding =
     \<lparr> td_new = (\<lambda>label. if toLowerCase label = ''utf-8'' \<or> toLowerCase label = ''us-ascii''
                          then Some () else None),
       td_stream = (\<lambda>d octets. (octets, ())),
       td_flush = (\<lambda>d. []),
       td_fatal = (\<lambda>label octets.
                     if toLowerCase label = ''utf-8'' \<or> toLowerCase label = ''us-ascii''
                     then Some octets else None) \<rparr>"


section \<open>headerparser: dates\<close>

text \<open>The numbers that \<open>parseDateHeader\<close> and \<open>parseParameterHeader\<close> compute are integers,
  NaN or \<open>\<plusminus>Infinity\<close>. A number is an \<open>int option\<close> here: the integer that the double
  holds, and \<open>None\<close> for a value that is not finite. Both functions hand such a value
  on to arithmetic and to \<open>Date.UTC\<close> only, where NaN and the infinities alike end in
  NaN. A double holds every integer below \<open>2^53\<close> in magnitude; a larger one is rounded
  to 53 significant bits, to the nearest and in a tie to the even one, and from
  \<open>2^1024\<close> on the result is Infinity.\<close>

fun bit_length :: "nat \<Rightarrow> nat" where
  "bit_length n = (if n = 0 then 0 else Suc (bit_length (n div 2)))"

declare bit_length.simps [simp del]

definition to_double :: "nat \<Rightarrow> nat option" where
  "to_double a =
     (if a < 9007199254740992 then Some a
      else
        let e = bit_length a - 53;
            q = a div 2 ^ e;
            r = a mod 2 ^ e;
            q' = (if 2 * r > 2 ^ e \<or> (2 * r = 2 ^ e \<and> odd q) then q + 1 else q)
        in if q' * 2 ^ e \<ge> 2 ^ 1024 then None else Some (q' * 2 ^ e))"

definition to_number :: "int \<Rightarrow> int option" where
  "to_number x =
     (case to_double (nat \<bar>x\<bar>) of
        None \<Rightarrow> None
      | Some v \<Rightarrow> Some (if x < 0 then - int v else int v))"

text \<open>The operators \<open>+\<close> and \<open>*\<close> on such numbers: the exact result, rounded.\<close>

definition num_add :: "int option \<Rightarrow> int option \<Rightarrow> int option" where
  "num_add a b =
     (case a of
        None \<Rightarrow> None
      | Some x \<Rightarrow> (case b of None \<Rightarrow> None | Some y \<Rightarrow> to_number (x + y)))"

definition num_mul :: "int option \<Rightarrow> int option \<Rightarrow> int option" where
  "num_mul a b =
     (case a of
        None \<Rightarrow> None
      | Some x \<Rightarrow> (case b of None \<Rightarrow> None | Some y \<Rightarrow> to_number (x * y)))"

text \<open>\<open>parseInt(string)\<close> without a radix: leading white space is skipped, a sign is read,
  \<open>0x\<close> or \<open>0X\<close> selects radix 16, and the longest run of digits is the value, rounded
  to a double; no digit gives NaN. (ECMAScript lets an implementation take the digits
  of a decimal string after the 20th for zeros; here every digit counts, as in the
  engines that jsmime runs on.)\<close>

definition is_digit :: "char \<Rightarrow> bool" where
  "is_digit c \<longleftrightarrow> (let n = (of_char c :: nat) in 48 \<le> n \<and> n \<le> 57)"

text \<open>The mathematical value of a string of digits.\<close>

definition digits_value :: "nat \<Rightarrow> string \<Rightarrow> int" where
  "digits_value radix ds = int (foldl (\<lambda>a d. a * radix + hex_value d) 0 ds)"

definition parse_magnitude :: "string \<Rightarrow> int option" where
  "parse_magnitude s =
     (if take 2 s = ''0x'' \<or> take 2 s = ''0X''
      then (let ds = takeWhile is_hex_digit (drop 2 s)
            in if ds = [] then None else to_number (digits_value 16 ds))
      else (let ds = takeWhile is_digit s
            in if ds = [] then None else to_number (digits_value 10 ds)))"

definition parseInt :: "string \<Rightarrow> int option" where
  "parseInt str =
     (let s = dropWhile js_whitespace str in
      case s of
        [] \<Rightarrow> None
      | c # cs \<Rightarrow>
          if c = CHR ''-'' then map_option uminus (parse_magnitude cs)
          else if c = CHR ''+'' then parse_magnitude cs
          else parse_magnitude s)"

definition kMonthNames :: "string list" where
  "kMonthNames = [''Jan'', ''Feb'', ''Mar'', ''Apr'', ''May'', ''Jun'', ''Jul'', ''Aug'',
                  ''Sep'', ''Oct'', ''Nov'', ''Dec'']"

text \<open>\<open>array.indexOf(x)\<close>, \<open>None\<close> for \<open>-1\<close>.\<close>

fun indexOf :: "'a list \<Rightarrow> 'a \<Rightarrow> nat option" where
  "indexOf [] x = None"
| "indexOf (y # ys) x = (if y = x then Some 0 else map_option Suc (indexOf ys x))"

definition kKnownTZs :: "(string \<times> string) list" where
  "kKnownTZs =
     [(''UT'', ''+0000''), (''GMT'', ''+0000''),
      (''EST'', ''-0500''), (''EDT'', ''-0400''),
      (''CST'', ''-0600''), (''CDT'', ''-0500''),
      (''MST'', ''-0700''), (''MDT'', ''-0600''),
      (''PST'', ''-0800''), (''PDT'', ''-0700''),
      (''AST'', ''-0400''), (''NST'', ''-0330''), (''BST'', ''+0100''),
      (''MET'', ''+0100''), (''EET'', ''+0200''), (''JST'', ''+0900'')]"

text \<open>\<open>/^([+-])(\d\d)(\d\d)$/.exec(tzoffset)\<close>: the sign and the two pairs of digits.\<close>

definition decompose :: "string \<Rightarrow> (char \<times> string \<times> string) option" where
  "decompose tz =
     (case tz of
        [sg, h1, h2, m1, m2] \<Rightarrow>
          if (sg = CHR ''+'' \<or> sg = CHR ''-'') \<and> is_digit h1 \<and> is_digit h2 \<and>
             is_digit m1 \<and> is_digit m2
          then Some (sg, [h1, h2], [m1, m2]) else None
      | _ \<Rightarrow> None)"

text \<open>The timezone offset in minutes of \<open>tokens[8]\<close>, which is \<open>None\<close> when there are only
  eight tokens. A token that names a property that \<open>kKnownTZs\<close> inherits from
  \<open>Object.prototype\<close> is exchanged for a function, whose text does not match the
  expression any more than the token did; a missing token is matched as the text
  \<open>undefined\<close>. The two numbers read are below 100.\<close>

definition tzOffsetInMin :: "string option \<Rightarrow> int" where
  "tzOffsetInMin tok =
     (let tzoffset = (case tok of
                        None \<Rightarrow> ''undefined''
                      | Some t \<Rightarrow> (case Map_get kKnownTZs t of Some z \<Rightarrow> z | None \<Rightarrow> t))
      in case decompose tzoffset of
           None \<Rightarrow> 0
         | Some (sg, hh, mm) \<Rightarrow>
             (let m = digits_value 10 hh * 60 + digits_value 10 mm
              in if sg = CHR ''-'' then - m else m))"

text \<open>\<open>Date.UTC\<close> and the \<open>Date\<close> constructor, from ECMAScript's day and time arithmetic.
  \<open>MakeTime\<close> and \<open>MakeDate\<close> round after each operation, as the standard says. The day
  number of \<open>MakeDay\<close> is computed exactly and rounded once: an engine that rounds in
  between differs only for a year or a day of the month beyond \<open>2^44\<close>.\<close>

definition DayFromYear :: "int \<Rightarrow> int" where
  "DayFromYear y =
     365 * (y - 1970) + (y - 1969) div 4 - (y - 1901) div 100 + (y - 1601) div 400"

definition InLeapYear :: "int \<Rightarrow> bool" where
  "InLeapYear y \<longleftrightarrow> y mod 4 = 0 \<and> (y mod 100 \<noteq> 0 \<or> y mod 400 = 0)"

definition days_before_month :: "int \<Rightarrow> nat \<Rightarrow> int" where
  "days_before_month y mn =
     [0, 31, 59, 90, 120, 151, 181, 212, 243, 273, 304, 334] ! mn +
     (if InLeapYear y \<and> 2 \<le> mn then 1 else 0)"

definition MakeDay :: "int \<Rightarrow> int \<Rightarrow> int \<Rightarrow> int option" where
  "MakeDay year month date =
     (let ym = year + month div 12; mn = nat (month mod 12)
      in to_number (DayFromYear ym + days_before_month ym mn + date - 1))"

definition MakeTime :: "int \<Rightarrow> int \<Rightarrow> int \<Rightarrow> int \<Rightarrow> int option" where
  "MakeTime hour minute sec ms =
     num_add
       (num_add (num_add (to_number (hour * 3600000)) (to_number (minute * 60000)))
                (to_number (sec * 1000)))
       (Some ms)"

definition MakeDate :: "int option \<Rightarrow> int option \<Rightarrow> int option" where
  "MakeDate day time = num_add (num_mul day (Some 86400000)) time"

definition TimeClip :: "int option \<Rightarrow> int option" where
  "TimeClip time =
     (case time of
        None \<Rightarrow> None
      | Some t \<Rightarrow> if \<bar>t\<bar> > 8640000000000000 then None else Some t)"

definition Date_UTC :: "int \<Rightarrow> int \<Rightarrow> int \<Rightarrow> int \<Rightarrow> int \<Rightarrow> int \<Rightarrow> int option" where
  "Date_UTC year month date hours minutes seconds =
     (let yr = (if 0 \<le> year \<and> year \<le> 99 then 1900 + year else year)
      in TimeClip (MakeDate (MakeDay yr month date) (MakeTime hours minutes seconds 0)))"

text \<open>The step \<open>if (year < 100) year += year < 50 ? 2000 : 1900\<close>.\<close>

definition full_year :: "int \<Rightarrow> int option" where
  "full_year year =
     (if year < 100 then to_number (year + (if year < 50 then 2000 else 1900)) else Some year)"

text \<open>The tokens as strings, without the day of the week.\<close>

definition date_tokens :: "token list \<Rightarrow> string list" where
  "date_tokens toks =
     (let tokens = map token_toString toks
      in if length tokens > 1 \<and> tokens ! 1 = '','' then drop 2 tokens else tokens)"

text \<open>The instant (milliseconds since the epoch) that the date object holds, \<open>None\<close>
  for an invalid date.\<close>

definition date_of_tokens :: "string list \<Rightarrow> int option" where
  "date_of_tokens tokens =
     (if length tokens < 8 then None
      else
        case (parseInt (tokens ! 0), indexOf kMonthNames (take 3 (tokens ! 1)),
              parseInt (tokens ! 2), parseInt (tokens ! 3), parseInt (tokens ! 5),
              parseInt (tokens ! 7)) of
          (Some day, Some month, Some year0, Some hours, Some minutes, Some seconds) \<Rightarrow>
            (case full_year year0 of
               None \<Rightarrow> None
             | Some year \<Rightarrow>
                 TimeClip
                   (num_add (Date_UTC year (int month) day hours minutes seconds)
                      (Some (- (tzOffsetInMin (if length tokens > 8 then Some (tokens ! 8)
                                               else None) * 60 * 1000))))
          )
        | _ \<Rightarrow> None)"

definition no_opts :: header_opts where
  "no_opts = \<lparr>qstring = False, dliteral = False, comments = False, rfc2047 = False\<rparr>"

definition parseDateHeader :: "'d text_decoding \<Rightarrow> string \<Rightarrow> js_error + int option" where
  "parseDateHeader td header =
     (case getHeaderTokens td header '',:'' no_opts of
        Inl e \<Rightarrow> Inl e
      | Inr toks \<Rightarrow> Inr (date_of_tokens (date_tokens toks)))"

text \<open>What the tokenizer gives for a value without a backslash when no option is set:
  the words between white space and delimiters, and the delimiters. \<open>words_from\<close> has
  read \<open>rev acc\<close> of the word it is in.\<close>

fun words_from :: "string \<Rightarrow> string \<Rightarrow> string \<Rightarrow> token list" where
  "words_from delimiters acc [] = (if acc = [] then [] else [Token (rev acc)])"
| "words_from delimiters acc (c # cs) =
     (if is_wsp c
      then (if acc = [] then [] else [Token (rev acc)]) @ words_from delimiters [] cs
      else if c \<in> set delimiters
      then (if acc = [] then [] else [Token (rev acc)]) @ Delimiter c #
             words_from delimiters [] cs
      else words_from delimiters (c # acc) cs)"

text \<open>The date headers of RFC 5322, \<open>[day-of-week ","] day month year hour ":" minute ":"
  second zone\<close>: a word has no white space, comma, colon or backslash; a field is one to
  four digits.\<close>

definition plain_word :: "string \<Rightarrow> bool" where
  "plain_word w \<longleftrightarrow>
     w \<noteq> [] \<and> (\<forall>c \<in> set w. \<not> is_wsp c \<and> c \<noteq> CHR '','' \<and> c \<noteq> CHR '':'' \<and> c \<noteq> CHR 0x5C)"

definition date_field :: "string \<Rightarrow> bool" where
  "date_field ds \<longleftrightarrow> ds \<noteq> [] \<and> length ds \<le> 4 \<and> (\<forall>c \<in> set ds. is_digit c)"

definition digit_of :: "char \<Rightarrow> int" where
  "digit_of c = int (of_char c) - 48"

text \<open>The zones that RFC 5322 and the comment in the source name, with their offsets in
  minutes.\<close>

definition zone_minutes :: "(string \<times> int) list" where
  "zone_minutes =
     [(''UT'', 0), (''GMT'', 0), (''EST'', - 300), (''EDT'', - 240), (''CST'', - 360),
      (''CDT'', - 300), (''MST'', - 420), (''MDT'', - 360), (''PST'', - 480),
      (''PDT'', - 420), (''AST'', - 240), (''NST'', - 210), (''BST'', 60), (''MET'', 60),
      (''EET'', 120), (''JST'', 540)]"

text \<open>The offset in minutes that the claim gives a zone: \<open>\<plusminus>HHMM\<close> is \<open>\<plusminus>(60 HH + MM)\<close>, a
  zone of the table has the offset of the table, any other zone has offset 0.\<close>

definition numeric_zone :: "string \<Rightarrow> bool" where
  "numeric_zone z \<longleftrightarrow>
     (case z of
        [sg, h1, h2, m1, m2] \<Rightarrow>
          (sg = CHR ''+'' \<or> sg = CHR ''-'') \<and> is_digit h1 \<and> is_digit h2 \<and> is_digit m1 \<and>
          is_digit m2
      | _ \<Rightarrow> False)"

definition zone_offset :: "string \<Rightarrow> int" where
  "zone_offset z =
     (if numeric_zone z
      then (if z ! 0 = CHR ''-'' then - 1 else 1) *
           ((10 * digit_of (z ! 1) + digit_of (z ! 2)) * 60 +
            (10 * digit_of (z ! 3) + digit_of (z ! 4)))
      else (case Map_get zone_minutes z of Some off \<Rightarrow> off | None \<Rightarrow> 0))"

text \<open>The instant of a wall-clock time in UTC, in milliseconds since the epoch.\<close>

definition utc_instant :: "int \<Rightarrow> nat \<Rightarrow> int \<Rightarrow> int \<Rightarrow> int \<Rightarrow> int \<Rightarrow> int" where
  "utc_instant y mo d h mi s =
     (DayFromYear y + days_before_month y mo + d - 1) * 86400000 +
     h * 3600000 + mi * 60000 + s * 1000"


section \<open>The structured header registries\<close>

text \<open>The decoder and encoder functions of \<open>structuredHeaders.js\<close>, by name, and the
  functions a caller may register, told apart by a number.\<close>

datatype decoder =
    parseAddress
  | parseContentType
  | parseUnstructured
  | parseMessageID
  | parseDate
  | parseContentTransferEncoding
  | UserDecoder nat

datatype encoder =
    writeAddress
  | writeUnstructured
  | writeDate
  | writeMessageID
  | UserEncoder nat

record structuredHeaders =
  sh_decoders :: "(string \<times> decoder) list"
  sh_encoders :: "(string \<times> encoder) list"
  sh_spellings :: "(string \<times> string) list"

definition addHeader :: "string \<Rightarrow> decoder \<Rightarrow> encoder \<Rightarrow> structuredHeaders \<Rightarrow> structuredHeaders" where
  "addHeader name dec enc sh =
     (let lowerName = toLowerCase name in
      \<lparr> sh_decoders = Map_set lowerName dec (sh_decoders sh),
        sh_encoders = Map_set lowerName enc (sh_encoders sh),
        sh_spellings = Map_set lowerName name (sh_spellings sh) \<rparr>)"

text \<open>The module body of \<open>structuredHeaders.js\<close> is a sequence of calls of
  \<open>addHeader\<close> and of direct \<open>set\<close> calls on the decoder and encoder maps (whose
  keys are then not lower-cased); they are listed in the order of the file.\<close>

datatype sh_statement =
    AddHeader string decoder encoder
  | SetDecoder string decoder
  | SetEncoder string encoder

fun sh_exec :: "sh_statement \<Rightarrow> structuredHeaders \<Rightarrow> structuredHeaders" where
  "sh_exec (AddHeader name dec enc) sh = addHeader name dec enc sh"
| "sh_exec (SetDecoder key dec) sh = sh\<lparr>sh_decoders := Map_set key dec (sh_decoders sh)\<rparr>"
| "sh_exec (SetEncoder key enc) sh = sh\<lparr>sh_encoders := Map_set key enc (sh_encoders sh)\<rparr>"

definition sh_statements :: "sh_statement list" where
  "sh_statements =
     [AddHeader ''Bcc'' parseAddress writeAddress,
      AddHeader ''Cc'' parseAddress writeAddress,
      AddHeader ''From'' parseAddress writeAddress,
      AddHeader ''Reply-To'' parseAddress writeAddress,
      AddHeader ''Resent-Bcc'' parseAddress writeAddress,
      AddHeader ''Resent-Cc'' parseAddress writeAddress,
      AddHeader ''Resent-From'' parseAddress writeAddress,
      AddHeader ''Resent-Reply-To'' parseAddress writeAddress,
      AddHeader ''Resent-Sender'' parseAddress writeAddress,
      AddHeader ''Resent-To'' parseAddress writeAddress,
      AddHeader ''Sender'' parseAddress writeAddress,
      AddHeader ''To'' parseAddress writeAddress,
      AddHeader ''Approved'' parseAddress writeAddress,
      AddHeader ''Disposition-Notification-To'' parseAddress writeAddress,
      AddHeader ''Delivered-To'' parseAddress writeAddress,
      AddHeader ''Return-Receipt-To'' parseAddress writeAddress,
      AddHeader ''Mail-Reply-To'' parseAddress writeAddress,
      AddHeader ''Mail-Followup-To'' parseAddress writeAddress,
      SetDecoder ''Content-Type'' parseContentType,
      AddHeader ''Comments'' parseUnstructured writeUnstructured,
      AddHeader ''Keywords'' parseUnstructured writeUnstructured,
      AddHeader ''Subject'' parseUnstructured writeUnstructured,
      AddHeader ''MIME-Version'' parseUnstructured writeUnstructured,
      AddHeader ''Content-Description'' parseUnstructured writeUnstructured,
      AddHeader ''User-Agent'' parseUnstructured writeUnstructured,
      AddHeader ''Date'' parseDate writeDate,
      AddHeader ''Resent-Date'' parseDate writeDate,
      AddHeader ''Expires'' parseDate writeDate,
      AddHeader ''Injection-Date'' parseDate writeDate,
      AddHeader ''NNTP-Posting-Date'' parseDate writeDate,
      AddHeader ''Message-ID'' parseMessageID writeMessageID,
      AddHeader ''Resent-Message-ID'' parseMessageID writeMessageID,
      SetDecoder ''Content-Transfer-Encoding'' parseContentTransferEncoding,
      SetEncoder ''Content-Transfer-Encoding'' writeUnstructured]"

definition structuredHeaders_module :: structuredHeaders where
  "structuredHeaders_module =
     fold sh_exec sh_statements \<lparr> sh_decoders = [], sh_encoders = [], sh_spellings = [] \<rparr>"

text \<open>The registries of \<open>headerparser.js\<close> and \<open>headeremitter.js\<close>. Both modules hold
  the one \<open>spellings\<close> map of \<open>structuredHeaders.js\<close> as \<open>preferredSpellings\<close>.\<close>

record registry =
  structuredDecoders :: "(string \<times> decoder) list"
  forbiddenHeaders :: "string list"
  encoders :: "(string \<times> encoder) list"
  preferredSpellings :: "(string \<times> string) list"

definition addStructuredDecoder :: "string \<Rightarrow> decoder \<Rightarrow> registry \<Rightarrow> js_error option \<times> registry" where
  "addStructuredDecoder header dec reg =
     (let lowerHeader = toLowerCase header in
      if Set_has (forbiddenHeaders reg) lowerHeader
      then (Some (Error (''Cannot override header: '' @ header)), reg)
      else
        let reg1 = reg\<lparr>structuredDecoders := Map_set lowerHeader dec (structuredDecoders reg)\<rparr>
        in (None,
            if \<not> Map_has (preferredSpellings reg1) lowerHeader
            then reg1\<lparr>preferredSpellings := Map_set lowerHeader header (preferredSpellings reg1)\<rparr>
            else reg1))"

definition addStructuredEncoder :: "string \<Rightarrow> encoder \<Rightarrow> registry \<Rightarrow> registry" where
  "addStructuredEncoder header enc reg =
     (let lowerName = toLowerCase header;
          reg1 = reg\<lparr>encoders := Map_set lowerName enc (encoders reg)\<rparr>
      in if \<not> Map_has (preferredSpellings reg1) lowerName
         then reg1\<lparr>preferredSpellings := Map_set lowerName header (preferredSpellings reg1)\<rparr>
         else reg1)"

text \<open>The loops that run when the two modules are loaded.\<close>

fun load_decoders :: "(string \<times> decoder) list \<Rightarrow> registry \<Rightarrow> js_error option \<times> registry" where
  "load_decoders [] reg = (None, reg)"
| "load_decoders (pair # pairs) reg =
     (case addStructuredDecoder (fst pair) (snd pair) reg of
        (Some e, reg1) \<Rightarrow> (Some e, reg1)
      | (None, reg1) \<Rightarrow>
          load_decoders pairs
            (reg1\<lparr>forbiddenHeaders := Set_add (toLowerCase (fst pair)) (forbiddenHeaders reg1)\<rparr>))"

fun load_encoders :: "(string \<times> encoder) list \<Rightarrow> registry \<Rightarrow> registry" where
  "load_encoders [] reg = reg"
| "load_encoders (pair # pairs) reg =
     load_encoders pairs (addStructuredEncoder (fst pair) (snd pair) reg)"

definition jsmime_loaded :: "js_error option \<times> registry" where
  "jsmime_loaded =
     (case load_decoders (sh_decoders structuredHeaders_module)
             \<lparr> structuredDecoders = [], forbiddenHeaders = [], encoders = [],
               preferredSpellings = sh_spellings structuredHeaders_module \<rparr> of
        (Some e, reg) \<Rightarrow> (Some e, reg)
      | (None, reg) \<Rightarrow> (None, load_encoders (sh_encoders structuredHeaders_module) reg))"

text \<open>What user code can do to the registries afterwards: any sequence of registrations,
  a rejected one leaving the registries as they were.\<close>

datatype registration = AddDecoder string decoder | AddEncoder string encoder

fun register :: "registration \<Rightarrow> registry \<Rightarrow> registry" where
  "register (AddDecoder header dec) reg = snd (addStructuredDecoder header dec reg)"
| "register (AddEncoder header enc) reg = addStructuredEncoder header enc reg"

definition registry_after :: "registration list \<Rightarrow> registry" where
  "registry_after calls = fold register calls (snd jsmime_loaded)"

definition builtin_decoded :: "string list" where
  "builtin_decoded = map toLowerCase (map fst (sh_decoders structuredHeaders_module))"

definition builtin_encoded :: "string list" where
  "builtin_encoded = map toLowerCase (map fst (sh_encoders structuredHeaders_module))"


section \<open>headerparser: parameter headers\<close>

text \<open>\<open>token.replace(/%([0-9A-Fa-f]{2})/g, \<dots>)\<close>: every \<open>%\<close> followed by two
  hexadecimal digits becomes the character with that code.\<close>

fun percent_decode :: "string \<Rightarrow> string" where
  "percent_decode (c # h1 # h2 # rest) =
     (if c = CHR ''%'' \<and> is_hex_digit h1 \<and> is_hex_digit h2
      then fromCharCode (16 * hex_value h1 + hex_value h2) # percent_decode rest
      else c # percent_decode (h1 # h2 # rest))"
| "percent_decode (c # cs) = c # percent_decode cs"
| "percent_decode [] = []"

definition endsWith_star :: "string \<Rightarrow> bool" where
  "endsWith_star name \<longleftrightarrow> name \<noteq> [] \<and> last name = CHR ''*''"

text \<open>The first loop of \<open>parseParameterHeader\<close>, over the tokens: the name being read,
  whether a name is still awaited, and the \<open>[name, value]\<close> pairs found.\<close>

record param_scan =
  scan_name :: string
  inName :: bool
  matches :: "(string \<times> string) list"

definition push_pending :: "param_scan \<Rightarrow> param_scan" where
  "push_pending sc =
     (if scan_name sc \<noteq> [] \<and> \<not> inName sc
      then sc\<lparr>matches := matches sc @ [(scan_name sc, [])]\<rparr> else sc)"

definition scan_token :: "bool \<Rightarrow> token \<Rightarrow> param_scan \<Rightarrow> param_scan" where
  "scan_token doRFC2231 tok sc =
     (if tok = Delimiter (CHR '';'') then (push_pending sc)\<lparr>scan_name := [], inName := True\<rparr>
      else if tok = Delimiter (CHR ''='') then sc\<lparr>inName := False\<rparr>
      else if inName sc \<and> scan_name sc = [] then sc\<lparr>scan_name := token_toString tok\<rparr>
      else if \<not> inName sc \<and> scan_name sc \<noteq> [] then
        (let text = token_toString tok;
             text' = (if doRFC2231 \<and> endsWith_star (scan_name sc) then percent_decode text
                      else text)
         in sc\<lparr>matches := matches sc @ [(scan_name sc, text')], scan_name := []\<rparr>)
      else if inName sc then sc\<lparr>scan_name := []\<rparr>
      else sc)"

definition scan_tokens :: "bool \<Rightarrow> token list \<Rightarrow> (string \<times> string) list" where
  "scan_tokens doRFC2231 toks =
     matches (push_pending
       (fold (scan_token doRFC2231) toks \<lparr>scan_name = [], inName = True, matches = []\<rparr>))"

text \<open>An entry of \<open>continuationValues\<close>: an array that may have holes, kept as the map
  from the indices that are set to their values, with the properties \<open>valid\<close> and
  \<open>hasCharset\<close> (\<open>None\<close> while undefined). An index is the number that \<open>parseInt\<close> gives,
  a double: two numerals that round to the same double are the same index, and the
  index Infinity is written \<open>2^1024\<close> here, which no double reaches. Only the indices
  below \<open>2^32 - 1\<close> count for the length of the array.\<close>

record continuation =
  valid :: bool
  hasCharset :: "bool option"
  segments :: "(nat \<times> string) list"

definition array_length :: "(nat \<times> string) list \<Rightarrow> nat" where
  "array_length segs =
     (let ks = filter (\<lambda>k. k < 4294967295) (map fst segs)
      in if ks = [] then 0 else fold max ks 0 + 1)"

record collected =
  simpleValues :: "(string \<times> string) list"
  charsetValues :: "(string \<times> string) list"
  continuationValues :: "(string \<times> continuation) list"

text \<open>The continuation branch of the second loop, for the pair \<open>[name, value]\<close> whose
  first \<open>*\<close> is at index \<open>star\<close>.\<close>

definition bad_number :: "string \<Rightarrow> bool" where
  "bad_number number \<longleftrightarrow>
     (number \<noteq> [] \<and> hd number = CHR ''0'' \<and> number \<noteq> ''0'') \<or>
     number = [] \<or> (\<exists>c \<in> set number. \<not> is_digit c)"

definition index_key :: "string \<Rightarrow> nat" where
  "index_key number =
     (case to_double (nat (digits_value 10 number)) of Some v \<Rightarrow> v | None \<Rightarrow> 2 ^ 1024)"

definition add_segment :: "string \<Rightarrow> string \<Rightarrow> continuation \<Rightarrow> continuation" where
  "add_segment number val entry =
     (if number \<noteq> ''0'' \<and> bad_number number then entry\<lparr>valid := False\<rparr>
      else
        let n = index_key number in
        if Map_has (segments entry) n then entry\<lparr>valid := False\<rparr>
        else entry\<lparr>segments := Map_set n val (segments entry)\<rparr>)"

definition add_continuation ::
  "string \<Rightarrow> nat \<Rightarrow> string \<Rightarrow> (string \<times> continuation) list \<Rightarrow> (string \<times> continuation) list" where
  "add_continuation name star val cv =
     (let param = take star name;
          entry = (case Map_get cv param of
                     Some e \<Rightarrow> e
                   | None \<Rightarrow> \<lparr>valid = True, hasCharset = None, segments = []\<rparr>)
      in if Map_has cv param \<and> \<not> valid entry then cv
         else
           let lastStar = (last name = CHR ''*'');
               number = slice (star + 1) (length name - (if lastStar then 1 else 0)) name;
               entry1 = (if number = ''0'' then entry\<lparr>hasCharset := Some lastStar\<rparr> else entry)
           in Map_set param (add_segment number val entry1) cv)"

definition collect_pair :: "string \<times> string \<Rightarrow> collected \<Rightarrow> collected" where
  "collect_pair pair co =
     (let name = fst pair; val = snd pair in
      case indexOf name (CHR ''*'') of
        None \<Rightarrow>
          if \<not> Map_has (simpleValues co) name
          then co\<lparr>simpleValues := Map_set name val (simpleValues co)\<rparr> else co
      | Some star \<Rightarrow>
          if star = length name - 1 then
            (let name' = take star name in
             if \<not> Map_has (charsetValues co) name'
             then co\<lparr>charsetValues := Map_set name' val (charsetValues co)\<rparr> else co)
          else co\<lparr>continuationValues := add_continuation name star val (continuationValues co)\<rparr>)"

definition collect :: "(string \<times> string) list \<Rightarrow> collected" where
  "collect ms = fold collect_pair ms
     \<lparr>simpleValues = [], charsetValues = [], continuationValues = []\<rparr>"

text \<open>\<open>decode2231Value(value)\<close>, \<open>None\<close> when the \<open>TextDecoder\<close> throws.\<close>

definition decode2231Value :: "'d text_decoding \<Rightarrow> string \<Rightarrow> string option" where
  "decode2231Value td val =
     (case indexOf val (CHR 0x27) of
        None \<Rightarrow> td_fatal td [] val
      | Some quote1 \<Rightarrow>
          (case indexOf (drop (quote1 + 1) val) (CHR 0x27) of
             None \<Rightarrow> td_fatal td (take quote1 val) (drop (quote1 + 1) val)
           | Some k \<Rightarrow> td_fatal td (take quote1 val) (drop (quote1 + 1 + k + 1) val)))"

text \<open>The loop \<open>for (var i = 0; valid && i < entry.length; i++)\<close> over an entry: the value
  of \<open>i\<close> when it ends, one past the first hole if there is one.\<close>

function scan_entry :: "(nat \<times> string) list \<Rightarrow> nat \<Rightarrow> nat" where
  "scan_entry segs i =
     (if i < array_length segs
      then (if Map_get segs i = None then i + 1 else scan_entry segs (i + 1))
      else i)"
  by pat_completeness auto
termination
  by (relation "measure (\<lambda>(segs, i). array_length segs - i)") auto

declare scan_entry.simps [simp del]

text \<open>\<open>entry.slice(0, i).join('')\<close>: a hole joins as the empty string.\<close>

definition join_segments :: "(nat \<times> string) list \<Rightarrow> nat \<Rightarrow> string" where
  "join_segments segs i =
     concat (map (\<lambda>j. case Map_get segs j of Some v \<Rightarrow> v | None \<Rightarrow> []) [0..<i])"

text \<open>What one entry of \<open>continuationValues\<close> gives to the result: \<open>None\<close> when the loop
  \<open>continue\<close>s without setting anything.\<close>

definition continuation_value :: "'d text_decoding \<Rightarrow> continuation \<Rightarrow> string option" where
  "continuation_value td entry =
     (case hasCharset entry of
        None \<Rightarrow> None
      | Some cs \<Rightarrow>
          (let val = join_segments (segments entry) (scan_entry (segments entry) 0)
           in if cs then decode2231Value td val else Some val))"

definition set_continuation ::
  "'d text_decoding \<Rightarrow> string \<times> continuation \<Rightarrow> (string \<times> string) list \<Rightarrow> (string \<times> string) list" where
  "set_continuation td pair vals =
     (case continuation_value td (snd pair) of
        None \<Rightarrow> vals
      | Some v \<Rightarrow> Map_set (fst pair) v vals)"

definition set_charset ::
  "'d text_decoding \<Rightarrow> string \<times> string \<Rightarrow> (string \<times> string) list \<Rightarrow> (string \<times> string) list" where
  "set_charset td pair vals =
     (case decode2231Value td (snd pair) of
        None \<Rightarrow> vals
      | Some v \<Rightarrow> Map_set (fst pair) v vals)"

definition build_values ::
  "'d text_decoding \<Rightarrow> bool \<Rightarrow> collected \<Rightarrow> (string \<times> string) list" where
  "build_values td doRFC2231 co =
     (let vals = fold (\<lambda>pair. Map_set (fst pair) (snd pair)) (simpleValues co) []
      in if doRFC2231
         then fold (set_charset td) (charsetValues co)
                (fold (set_continuation td) (continuationValues co) vals)
         else vals)"

text \<open>The result of \<open>parseParameterHeader\<close>: the map and its property \<open>preSemi\<close>.\<close>

record parameters =
  param_values :: "(string \<times> string) list"
  preSemi :: string

definition parseParameterHeader ::
  "'d text_decoding \<Rightarrow> string \<Rightarrow> bool \<Rightarrow> bool \<Rightarrow> js_error + parameters" where
  "parseParameterHeader td headerValue doRFC2047 doRFC2231 =
     (let start = (case indexOf headerValue (CHR '';'') of
                     None \<Rightarrow> headerValue | Some semi \<Rightarrow> take semi headerValue);
          rest = (case indexOf headerValue (CHR '';'') of
                    None \<Rightarrow> [] | Some semi \<Rightarrow> drop semi headerValue)
      in case getHeaderTokens td rest '';=''
                \<lparr>qstring = True, dliteral = False, comments = False, rfc2047 = doRFC2047\<rparr> of
           Inl e \<Rightarrow> Inl e
         | Inr toks \<Rightarrow>
             Inr \<lparr> param_values = build_values td doRFC2231 (collect (scan_tokens doRFC2231 toks)),
                   preSemi = takeWhile (\<lambda>c. \<not> is_wsp c) (trim start) \<rparr>)"




section \<open>Basic facts\<close>

subsection \<open>Maps\<close>

lemma Map_get_Map_set:
  "Map_get (Map_set k v m) k' = (if k' = k then Some v else Map_get m k')"
  by (induction m) auto





subsection \<open>Running the tokenizer\<close>

lemmas tokenizer_eval =
  getHeaderTokens_def tokens_from.simps in_quote_def classify_char_def encoded_words_here_def
  push_def new_Token_def slice_def start_index_def is_wsp_def is_line_terminator_def Let_def

section \<open>Numbers\<close>


lemma to_double_small: "a < 9007199254740992 \<Longrightarrow> to_double a = Some a"
  by (simp add: to_double_def)


lemma to_number_small: "\<bar>x\<bar> < 9007199254740992 \<Longrightarrow> to_number x = Some x"
  by (simp add: to_number_def to_double_small)

lemma num_add_small:
  "\<bar>x + y\<bar> < 9007199254740992 \<Longrightarrow> num_add (Some x) (Some y) = Some (x + y)"
  by (simp add: num_add_def to_number_small)

lemma num_mul_small:
  "\<bar>x * y\<bar> < 9007199254740992 \<Longrightarrow> num_mul (Some x) (Some y) = Some (x * y)"
  by (simp add: num_mul_def to_number_small)

text \<open>Rounding at work: \<open>2^53 + 1\<close> is half way between two doubles and goes to the even
  one, \<open>2^53\<close>; so \<open>parseInt\<close> gives the same number, and \<open>parseParameterHeader\<close> the same
  index, for the numerals \<open>9007199254740993\<close> and \<open>9007199254740992\<close>.\<close>

lemma bit_length_eval:
  "bit_length 0 = 0"
  "bit_length (Suc 0) = Suc 0"
  "bit_length (numeral k) = Suc (bit_length (numeral k div 2))"
  by (subst bit_length.simps, simp add: bit_length.simps)+

lemma to_double_rounds:
  "to_double 9007199254740993 = Some 9007199254740992 \<and>
   to_double 9007199254740995 = Some 9007199254740996 \<and>
   to_double 9007199254740994 = Some 9007199254740994"
  by (simp add: to_double_def Let_def bit_length_eval)


section \<open>Margins of a constructed emitter\<close>

lemma clamp_in_range:
  "mn \<le> mx \<Longrightarrow> mn \<le> d \<Longrightarrow> d \<le> mx \<Longrightarrow> mn \<le> clamp v mn mx d \<and> clamp v mn mx d \<le> mx"
  by (auto simp: clamp_def split: option.splits)

lemma softMargin_in_range:
  "30 \<le> softMargin (HeaderEmitter options) \<and> softMargin (HeaderEmitter options) \<le> 900"
  using clamp_in_range [of 30 900 78 "opt_softMargin options"]
  by (simp add: HeaderEmitter_def Let_def)

lemma hardMargin_upper:
  "hardMargin (HeaderEmitter options) \<le> 998"
  using softMargin_in_range [of options]
  by (auto simp: HeaderEmitter_def Let_def clamp_def split: option.splits)

lemma hardMargin_given_lower:
  "opt_hardMargin options = Some h \<Longrightarrow>
     softMargin (HeaderEmitter options) \<le> hardMargin (HeaderEmitter options)"
  by (auto simp: HeaderEmitter_def Let_def clamp_def split: option.splits)

text \<open>
  C5. The claim is that every constructed emitter has
  \<open>30 \<le> softMargin \<le> 900\<close> and \<open>softMargin \<le> hardMargin \<le> 998\<close>. The soft margin is
  always in its range and the hard margin never exceeds 998, but \<open>clamp\<close> returns the
  default 332 unclamped when \<open>hardMargin\<close> is absent: with \<open>softMargin: 400\<close> and no
  \<open>hardMargin\<close> the emitter has soft margin 400 and hard margin 332, below the soft one.
\<close>

theorem HeaderEmitter_default_hard_below_soft:
  "softMargin (HeaderEmitter \<lparr>opt_softMargin = Some 400, opt_hardMargin = None,
                               opt_useASCII = None\<rparr>) = 400 \<and>
   hardMargin (HeaderEmitter \<lparr>opt_softMargin = Some 400, opt_hardMargin = None,
                               opt_useASCII = None\<rparr>) = 332"
  by (simp add: HeaderEmitter_def clamp_def)


section \<open>Overflow while a header is emitted\<close>

lemma trimLeft_nil [simp]: "trimLeft [] = []"
  by (simp add: trimLeft_def)

lemma margins_commitLine [simp]:
  "softMargin (commitLine c em) = softMargin em"
  "hardMargin (commitLine c em) = hardMargin em"
  by (simp_all add: commitLine_def Let_def deliverData_def)
















section \<open>What the octet decoders carry over\<close>

lemma decode_base64_cases:
  "decode_base64 buffer m =
     (case atob (take (length (filter is_base64_char buffer) -
                        length (filter is_base64_char buffer) mod 4)
                   (filter is_base64_char buffer)) of
        Inl e \<Rightarrow> Inl e
      | Inr decoded \<Rightarrow>
          Inr (decoded,
               if length (filter is_base64_char buffer) mod 4 \<noteq> 0 \<and> m
               then drop (length (filter is_base64_char buffer) -
                            length (filter is_base64_char buffer) mod 4)
                      (filter is_base64_char buffer)
               else []))"
  by (simp add: decode_base64_def Let_def)

lemma length_drop_mod4: "length (drop (length s - length s mod 4) s) = length s mod 4"
proof -
  have "length s mod 4 \<le> length s" by (rule mod_less_eq_dividend)
  then show ?thesis by simp
qed

text \<open>
  The carry. \<open>decode_qp\<close> returns, for every buffer, a pair whose second element is the
  empty string. Whenever \<open>decode_base64\<close> returns a pair, the second element is empty if
  \<open>more\<close> is false, and if \<open>more\<close> is true it is the last \<open>length mod 4\<close> characters
  of the sanitized input: at most 3 characters, all of them characters that the
  sanitizing step keeps.
\<close>

lemma octet_decoders_carry:
  "snd (decode_qp buffer m) = [] \<and>
   (\<forall>d c. decode_base64 buffer False = Inr (d, c) \<longrightarrow> c = []) \<and>
   (\<forall>d c. decode_base64 buffer True = Inr (d, c) \<longrightarrow>
      length c \<le> 3 \<and>
      length c = length (filter is_base64_char buffer) mod 4 \<and>
      suffix c (filter is_base64_char buffer) \<and>
      (\<forall>x \<in> set c. is_base64_char x))"
proof (intro conjI allI impI)
  show "snd (decode_qp buffer m) = []" by (simp add: decode_qp_def)
next
  fix d c assume "decode_base64 buffer False = Inr (d, c)"
  then show "c = []"
    unfolding decode_base64_cases by (auto split: sum.splits)
next
  fix d c assume r: "decode_base64 buffer True = Inr (d, c)"
  define s where "s = filter is_base64_char buffer"
  have c: "c = (if length s mod 4 \<noteq> 0 then drop (length s - length s mod 4) s else [])"
    using r unfolding decode_base64_cases s_def by (auto split: sum.splits)
  have len: "length c = length s mod 4"
    using length_drop_mod4 [of s] by (simp add: c)
  show "length c = length (filter is_base64_char buffer) mod 4"
    using len by (simp add: s_def)
  show "length c \<le> 3"
  proof -
    have "length s mod 4 < 4" by simp
    then show ?thesis using len by linarith
  qed
  show sf: "suffix c (filter is_base64_char buffer)"
    unfolding s_def [symmetric] by (simp add: c suffix_drop)
  show "\<forall>x \<in> set c. is_base64_char x"
  proof
    fix x assume "x \<in> set c"
    then have "x \<in> set (filter is_base64_char buffer)"
      using sf set_mono_suffix by blast
    then show "is_base64_char x" by simp
  qed
qed


lemma octet_decoders_carry_example:
  "decode_base64 ''aGVs bG'' True = Inr (''hel'', ''bG'') \<and>
   length ''bG'' \<le> 3 \<and>
   suffix ''bG'' (filter is_base64_char ''aGVs bG'') \<and>
   decode_base64 ''aGVs'' False = Inr (''hel'', [])"
proof -
  have e: "decode_base64 ''aGVs bG'' True = Inr (''hel'', ''bG'')"
    by (simp add: decode_base64_def atob_def strip_padding_def is_ascii_whitespace_def
        is_base64_char_def is_base64_alnum_def base64_value_def fromCharCode_def Let_def
        cong: let_weak_cong)
  have f: "decode_base64 ''aGVs'' False = Inr (''hel'', [])"
    by (simp add: decode_base64_def atob_def strip_padding_def is_ascii_whitespace_def
        is_base64_char_def is_base64_alnum_def base64_value_def fromCharCode_def Let_def
        cong: let_weak_cong)
  have "length ''bG'' \<le> 3 \<and> suffix ''bG'' (filter is_base64_char ''aGVs bG'')"
    using octet_decoders_carry [of "''aGVs bG''" True] e by blast
  then show ?thesis using e f by blast
qed

text \<open>
  C10. The claim says that \<open>decode_base64\<close> returns a pair for every buffer, and the
  function's own comment says that, unlike \<open>atob\<close>, it ignores the characters that are
  not base64. The sanitizing step keeps every \<open>=\<close>, also one that is not final padding,
  and \<open>atob\<close> rejects such a string: for the buffer \<open>=aaa\<close> the call throws
  \<open>InvalidCharacterError\<close> and returns no pair, with either value of \<open>more\<close>.
\<close>

theorem decode_base64_throws:
  "decode_base64 ''=aaa'' False = Inl InvalidCharacterError \<and>
   decode_base64 ''=aaa'' True = Inl InvalidCharacterError"
  by (simp add: decode_base64_def atob_def strip_padding_def is_ascii_whitespace_def
      is_base64_char_def is_base64_alnum_def Let_def cong: let_weak_cong)


section \<open>Encoded-words that cannot be decoded\<close>





















section \<open>Domain literals in the token list\<close>

text \<open>
  C2. The claim, and the comment at the head of \<open>getHeaderTokens\<close>, say that the token of a
  domain literal is the bracketed slice of the input with its quoted-pairs retained. The
  slice is passed to the \<open>Token\<close> constructor, which unescapes every quoted-pair: for
  the six characters \<open>[a\]b]\<close>, tokenized as \<open>parseAddressingHeader\<close> does, the
  token is the five characters \<open>[a]b]\<close>, whatever the text-decoding facility.
\<close>

theorem domain_literal_is_unescaped:
  "getHeaderTokens td (''[a'' @ [CHR 0x5C] @ '']b]'') '':,;<>@''
     \<lparr>qstring = True, dliteral = True, comments = True, rfc2047 = True\<rparr> =
   Inr [Token ''[a]b]'']"
  by (simp add: getHeaderTokens_def tokens_from.simps in_quote_def classify_char_def
      encoded_words_here_def push_def new_Token_def slice_def start_index_def is_wsp_def
      is_line_terminator_def Let_def cong: let_weak_cong)

section \<open>The instant of a date header\<close>

subsection \<open>The tokenizer on a value without backslash, no option set\<close>

lemma unescape_plain: "CHR 0x5C \<notin> set s \<Longrightarrow> unescape s = s"
  by (induction s rule: unescape.induct) auto

lemma slice_Suc: "a \<le> i \<Longrightarrow> i < length s \<Longrightarrow> slice a (Suc i) s = slice a i s @ [s ! i]"
proof -
  assume a: "a \<le> i" and i: "i < length s"
  have "Suc i - a = Suc (i - a)" using a by simp
  moreover have "i - a < length (drop a s)" using a i by simp
  moreover have "drop a s ! (i - a) = s ! i" using a i by simp
  ultimately show ?thesis by (simp add: slice_def take_Suc_conv_app_nth)
qed

lemma slice_to_end: "slice a (length s) s = drop a s"
  by (simp add: slice_def)

lemma encoded_words_here_no_opts: "encoded_words_here no_opts val i = None"
  by (simp add: encoded_words_here_def no_opts_def)

lemma classify_char_plain:
  assumes "endQuote tk = None" and "commentDepth tk = 0"
  shows "classify_char val ds no_opts i c tk =
      (if is_wsp c \<or> c \<in> set ds then
         (let tk2 = (if tokenStart tk \<noteq> None
                     then (push (new_Token (slice (start_index tk) i val)) tk)\<lparr>tokenStart := None\<rparr>
                     else tk)
          in if is_wsp c then tk2 else push (Delimiter c) tk2)
       else if tokenStart tk = None then tk\<lparr>tokenStart := Some i\<rparr> else tk)"
  using assms by (auto simp: classify_char_def no_opts_def Let_def push_def)

lemma tokens_from_plain:
  assumes nb: "CHR 0x5C \<notin> set val"
  shows "i \<le> length val \<Longrightarrow> endQuote tk = None \<Longrightarrow> commentDepth tk = 0 \<Longrightarrow>
     length acc \<le> i \<Longrightarrow> rev acc = slice (i - length acc) i val \<Longrightarrow>
     tokenStart tk = (if acc = [] then None else Some (i - length acc)) \<Longrightarrow>
     \<exists>tk'. tokens_from td val ds no_opts i tk = Inr tk' \<and> endQuote tk' = None \<and>
           tokenList tk' @
             (case tokenStart tk' of Some n \<Rightarrow> [new_Token (drop n val)] | None \<Rightarrow> []) =
           tokenList tk @ words_from ds acc (drop i val)"
proof (induction "length val - i" arbitrary: i tk acc)
  case 0
  then have i: "i = length val" by simp
  have r: "tokens_from td val ds no_opts i tk = Inr tk"
    by (subst tokens_from.simps) (simp add: i)
  show ?case
  proof (cases "acc = []")
    case True
    then show ?thesis using r 0 by (simp add: i)
  next
    case False
    have "rev acc = drop (i - length acc) val" using 0(6) by (simp add: i slice_to_end)
    moreover have "CHR 0x5C \<notin> set (drop (i - length acc) val)"
      using nb by (meson in_set_dropD)
    ultimately have "new_Token (drop (i - length acc) val) = Token (rev acc)"
      by (simp add: new_Token_def unescape_plain)
    then show ?thesis using r 0 False by (simp add: i)
  qed
next
  case (Suc k)
  then have i: "i < length val" by simp
  define c where "c = val ! i"
  have cb: "c \<noteq> CHR 0x5C" using nb i unfolding c_def by (metis nth_mem)
  have d: "drop i val = c # drop (Suc i) val"
    using i by (simp add: c_def Cons_nth_drop_Suc)
  define tk1 where "tk1 = classify_char val ds no_opts i c tk"
  have step: "tokens_from td val ds no_opts i tk = tokens_from td val ds no_opts (Suc i) tk1"
    using i cb Suc.prems(2)
    by (subst tokens_from.simps) (simp add: c_def [symmetric] encoded_words_here_no_opts tk1_def)
  have k: "k = length val - Suc i" using Suc(2) by simp
  have nbacc: "CHR 0x5C \<notin> set (rev acc)"
  proof -
    have "set (slice (i - length acc) i val) \<subseteq> set val"
      unfolding slice_def by (meson set_take_subset set_drop_subset subset_trans)
    then show ?thesis using nb Suc.prems(5) by auto
  qed
  show ?case
  proof (cases "is_wsp c \<or> c \<in> set ds")
    case True
    have t1: "tokenStart tk1 = None" "endQuote tk1 = None" "commentDepth tk1 = 0"
      using True Suc.prems(2,3)
      by (auto simp: tk1_def classify_char_plain Let_def push_def)
    have l1: "tokenList tk1 = tokenList tk @ (if acc = [] then [] else [Token (rev acc)]) @
                (if is_wsp c then [] else [Delimiter c])"
    proof (cases "acc = []")
      case True
      then show ?thesis using \<open>is_wsp c \<or> c \<in> set ds\<close> Suc.prems(2,3,6)
        by (auto simp: tk1_def classify_char_plain Let_def push_def)
    next
      case False
      have "new_Token (slice (i - length acc) i val) = Token (rev acc)"
        using nbacc Suc.prems(5) by (simp add: new_Token_def unescape_plain)
      then show ?thesis using False \<open>is_wsp c \<or> c \<in> set ds\<close> Suc.prems(2,3,6)
        by (auto simp: tk1_def classify_char_plain Let_def push_def start_index_def)
    qed
    have "\<exists>tk'. tokens_from td val ds no_opts (Suc i) tk1 = Inr tk' \<and> endQuote tk' = None \<and>
           tokenList tk' @
             (case tokenStart tk' of Some n \<Rightarrow> [new_Token (drop n val)] | None \<Rightarrow> []) =
           tokenList tk1 @ words_from ds [] (drop (Suc i) val)"
      using Suc(1) [OF k, of tk1 "[]"] i t1 by (simp add: slice_def)
    then show ?thesis using True unfolding step d l1 by auto
  next
    case False
    have t1: "tokenStart tk1 = Some (i - length acc)" "endQuote tk1 = None"
      "commentDepth tk1 = 0" "tokenList tk1 = tokenList tk"
      using False Suc.prems(2,3,6)
      by (auto simp: tk1_def classify_char_plain)
    have r: "rev (c # acc) = slice (Suc i - length (c # acc)) (Suc i) val"
    proof -
      have "slice (i - length acc) (Suc i) val = slice (i - length acc) i val @ [val ! i]"
        using i by (intro slice_Suc) simp_all
      then show ?thesis using Suc.prems(4,5) by (simp add: c_def)
    qed
    have "\<exists>tk'. tokens_from td val ds no_opts (Suc i) tk1 = Inr tk' \<and> endQuote tk' = None \<and>
           tokenList tk' @
             (case tokenStart tk' of Some n \<Rightarrow> [new_Token (drop n val)] | None \<Rightarrow> []) =
           tokenList tk1 @ words_from ds (c # acc) (drop (Suc i) val)"
      using Suc(1) [OF k, of tk1 "c # acc"] i t1 r Suc.prems(4) by simp
    then show ?thesis using False unfolding step d by (simp add: t1)
  qed
qed

lemma getHeaderTokens_plain:
  assumes "CHR 0x5C \<notin> set val"
  shows "getHeaderTokens td val ds no_opts = Inr (words_from ds [] val)"
proof -
  obtain tk' where t: "tokens_from td val ds no_opts 0
             \<lparr> tokenList = [], tokenStart = None, endQuote = None, commentDepth = 0 \<rparr> = Inr tk'"
    and e: "endQuote tk' = None"
    and l: "tokenList tk' @
             (case tokenStart tk' of Some n \<Rightarrow> [new_Token (drop n val)] | None \<Rightarrow> []) =
           words_from ds [] val"
    using tokens_from_plain [OF assms, of 0
        "\<lparr> tokenList = [], tokenStart = None, endQuote = None, commentDepth = 0 \<rparr>" "[]" td ds]
    by (auto simp: slice_def)
  show ?thesis using l e by (auto simp: getHeaderTokens_def t split: option.splits)
qed

lemma words_from_word:
  "\<forall>c \<in> set w. \<not> is_wsp c \<and> c \<notin> set ds \<Longrightarrow>
     words_from ds acc (w @ rest) = words_from ds (rev w @ acc) rest"
  by (induction w arbitrary: acc) simp_all


lemma words_from_token:
  assumes "plain_word w"
  shows "words_from '',:'' [] (w @ CHR '' '' # rest) = Token w # words_from '',:'' [] rest"
    and "words_from '',:'' [] (w @ CHR '':'' # rest) =
           Token w # Delimiter (CHR '':'') # words_from '',:'' [] rest"
    and "words_from '',:'' [] (w @ CHR '','' # rest) =
           Token w # Delimiter (CHR '','') # words_from '',:'' [] rest"
    and "words_from '',:'' [] w = [Token w]"
proof -
  have p: "\<forall>c \<in> set w. \<not> is_wsp c \<and> c \<notin> set '',:''" and n: "w \<noteq> []"
    using assms by (auto simp: plain_word_def)
  have a: "\<And>rest. words_from '',:'' [] (w @ rest) = words_from '',:'' (rev w) rest"
    using words_from_word [OF p, of "[]"] by simp
  show "words_from '',:'' [] (w @ CHR '' '' # rest) = Token w # words_from '',:'' [] rest"
    using n by (simp add: a is_wsp_def)
  show "words_from '',:'' [] (w @ CHR '':'' # rest) =
           Token w # Delimiter (CHR '':'') # words_from '',:'' [] rest"
    using n by (simp add: a is_wsp_def)
  show "words_from '',:'' [] (w @ CHR '','' # rest) =
           Token w # Delimiter (CHR '','') # words_from '',:'' [] rest"
    using n by (simp add: a is_wsp_def)
  show "words_from '',:'' [] w = [Token w]"
    using n a [of "[]"] by simp
qed

subsection \<open>The fields\<close>

lemma is_digit_plain:
  assumes "is_digit c"
  shows "\<not> is_wsp c" "\<not> js_whitespace c" "c \<noteq> CHR '',''" "c \<noteq> CHR '':''" "c \<noteq> CHR 0x5C"
    "c \<noteq> CHR ''-''" "c \<noteq> CHR ''+''" "c \<noteq> CHR ''x''" "c \<noteq> CHR ''X''"
  using assms by (auto simp: is_digit_def is_wsp_def js_whitespace_def)

lemma date_field_plain: "date_field ds \<Longrightarrow> plain_word ds"
  by (auto simp: date_field_def plain_word_def dest: is_digit_plain)

lemma hex_value_digit: "is_digit c \<Longrightarrow> int (hex_value c) = digit_of c \<and> hex_value c \<le> 9"
  by (auto simp: is_digit_def hex_value_def digit_of_def Let_def)

lemma foldl_digits_bound:
  "\<forall>c \<in> set ds. is_digit c \<Longrightarrow>
     foldl (\<lambda>a d. a * 10 + hex_value d) a ds < (a + 1) * 10 ^ length ds"
proof (induction ds arbitrary: a)
  case Nil
  show ?case by simp
next
  case (Cons c ds)
  have "hex_value c \<le> 9" using Cons.prems hex_value_digit [of c] by simp
  then have "a * 10 + hex_value c + 1 \<le> (a + 1) * 10" by simp
  then have le: "(a * 10 + hex_value c + 1) * 10 ^ length ds \<le> ((a + 1) * 10) * 10 ^ length ds"
    by (rule mult_le_mono1)
  have eq: "((a + 1) * 10) * 10 ^ length ds = (a + 1) * 10 ^ length (c # ds)"
    by (simp add: algebra_simps)
  have "foldl (\<lambda>a d. a * 10 + hex_value d) (a * 10 + hex_value c) ds
                   < (a * 10 + hex_value c + 1) * 10 ^ length ds"
    using Cons.IH [of "a * 10 + hex_value c"] Cons.prems by simp
  then have "foldl (\<lambda>a d. a * 10 + hex_value d) (a * 10 + hex_value c) ds
                   < (a + 1) * 10 ^ length (c # ds)"
    using le unfolding eq by (rule less_le_trans)
  then show ?case by simp
qed

lemma digits_value_field:
  assumes "date_field ds"
  shows "0 \<le> digits_value 10 ds" and "digits_value 10 ds < 10000"
proof -
  show "0 \<le> digits_value 10 ds" by (simp add: digits_value_def)
  have "foldl (\<lambda>a d. a * 10 + hex_value d) 0 ds < (0 + 1) * 10 ^ length ds"
    using assms by (intro foldl_digits_bound) (simp add: date_field_def)
  also have "\<dots> = 10 ^ length ds" by simp
  also have "(10::nat) ^ length ds \<le> 10 ^ 4"
    using assms by (intro power_increasing) (simp_all add: date_field_def)
  finally show "digits_value 10 ds < 10000" by (simp add: digits_value_def)
qed

lemma parseInt_field:
  assumes "date_field ds"
  shows "parseInt ds = Some (digits_value 10 ds)"
proof -
  obtain c cs where ds: "ds = c # cs" using assms by (cases ds) (auto simp: date_field_def)
  have c: "is_digit c" and cs: "\<forall>x \<in> set cs. is_digit x"
    using assms by (auto simp: date_field_def ds)
  have n: "ds \<noteq> []" by (simp add: ds)
  have t: "takeWhile is_digit ds = ds" using c cs by (simp add: ds)
  have x: "take 2 ds \<noteq> ''0x''" "take 2 ds \<noteq> ''0X''"
    using cs is_digit_plain(8,9) by (cases cs; auto simp: ds)+
  have v: "to_number (digits_value 10 ds) = Some (digits_value 10 ds)"
    using digits_value_field [OF assms] by (intro to_number_small) simp
  have "parse_magnitude ds = Some (digits_value 10 ds)"
    using x n by (simp add: parse_magnitude_def t v)
  then have pm: "parse_magnitude (c # cs) = Some (digits_value 10 (c # cs))"
    by (simp only: ds)
  have "parseInt (c # cs) = Some (digits_value 10 (c # cs))"
    using is_digit_plain(2,6,7) [OF c] by (simp add: parseInt_def pm)
  then show ?thesis by (simp only: ds)
qed

subsection \<open>The day and the time\<close>

lemma DayFromYear_bounds:
  assumes "100 \<le> y" and "y \<le> 9999"
  shows "- 1000000 \<le> DayFromYear y" and "DayFromYear y \<le> 3000000"
proof -
  have a: "(100 - 1969) div 4 \<le> (y - 1969) div 4" "(y - 1969) div 4 \<le> (9999 - 1969) div 4"
    using assms by (intro zdiv_mono1; simp)+
  have b: "(100 - 1901) div 100 \<le> (y - 1901) div 100" "(y - 1901) div 100 \<le> (9999 - 1901) div 100"
    using assms by (intro zdiv_mono1; simp)+
  have c: "(100 - 1601) div 400 \<le> (y - 1601) div 400" "(y - 1601) div 400 \<le> (9999 - 1601) div 400"
    using assms by (intro zdiv_mono1; simp)+
  show "- 1000000 \<le> DayFromYear y" using a b c assms by (simp add: DayFromYear_def)
  show "DayFromYear y \<le> 3000000" using a b c assms by (simp add: DayFromYear_def)
qed

lemma days_before_month_bounds:
  assumes "mo < 12"
  shows "0 \<le> days_before_month y mo" and "days_before_month y mo \<le> 335"
proof -
  define l :: "int list" where "l = [0, 31, 59, 90, 120, 151, 181, 212, 243, 273, 304, 334]"
  have "l ! mo \<in> set l" using assms by (intro nth_mem) (simp add: l_def)
  then have "0 \<le> l ! mo \<and> l ! mo \<le> 334" unfolding l_def by auto
  then show "0 \<le> days_before_month y mo" and "days_before_month y mo \<le> 335"
    by (auto simp: days_before_month_def l_def)
qed

lemma Date_UTC_exact:
  assumes y: "100 \<le> y" "y \<le> 9999" and mo: "mo < 12"
    and d: "0 \<le> d" "d < 10000" and h: "0 \<le> h" "h < 10000"
    and mi: "0 \<le> mi" "mi < 10000" and s: "0 \<le> s" "s < 10000"
  shows "Date_UTC y (int mo) d h mi s = Some (utc_instant y mo d h mi s)"
    and "\<bar>utc_instant y mo d h mi s\<bar> \<le> 400000000000000"
proof -
  define day where "day = DayFromYear y + days_before_month y mo + d - 1"
  have db: "- 1000001 \<le> day" "day \<le> 3020000"
    using DayFromYear_bounds [OF y] days_before_month_bounds [OF mo, of y] d
    by (simp_all add: day_def)
  have m: "int mo div 12 = 0" "nat (int mo mod 12) = mo" using mo by simp_all
  have md: "MakeDay y (int mo) d = Some day"
    using db by (simp add: MakeDay_def m day_def [symmetric] to_number_small)
  have t1: "to_number (h * 3600000) = Some (h * 3600000)"
    using h by (intro to_number_small) (simp add: abs_mult)
  have t2: "to_number (mi * 60000) = Some (mi * 60000)"
    using mi by (intro to_number_small) (simp add: abs_mult)
  have t3: "to_number (s * 1000) = Some (s * 1000)"
    using s by (intro to_number_small) (simp add: abs_mult)
  have mt: "MakeTime h mi s 0 = Some (h * 3600000 + mi * 60000 + s * 1000)"
    using h mi s by (simp add: MakeTime_def t1 t2 t3 num_add_small)
  have tb: "0 \<le> h * 3600000 + mi * 60000 + s * 1000"
    "h * 3600000 + mi * 60000 + s * 1000 \<le> 37000000000"
    using h mi s by simp_all
  have dm: "\<bar>day * 86400000\<bar> \<le> 300000000000000" using db by (simp add: abs_le_iff)
  have u: "utc_instant y mo d h mi s = day * 86400000 + (h * 3600000 + mi * 60000 + s * 1000)"
    by (simp add: utc_instant_def day_def)
  show b: "\<bar>utc_instant y mo d h mi s\<bar> \<le> 400000000000000"
    unfolding u using dm tb by linarith
  have "MakeDate (Some day) (Some (h * 3600000 + mi * 60000 + s * 1000)) =
          Some (day * 86400000 + (h * 3600000 + mi * 60000 + s * 1000))"
    using dm b unfolding u MakeDate_def
    by (simp add: num_mul_small num_add_small)
  then show "Date_UTC y (int mo) d h mi s = Some (utc_instant y mo d h mi s)"
    using y b by (simp add: Date_UTC_def md mt TimeClip_def u)
qed

subsection \<open>The zone\<close>

lemma digits_value_pair:
  "is_digit a \<Longrightarrow> is_digit b \<Longrightarrow> digits_value 10 [a, b] = 10 * digit_of a + digit_of b"
  using hex_value_digit [of a] hex_value_digit [of b] by (simp add: digits_value_def)

lemma digit_of_bounds: "is_digit c \<Longrightarrow> 0 \<le> digit_of c \<and> digit_of c \<le> 9"
  by (auto simp: is_digit_def digit_of_def Let_def)

lemma decompose_numeric:
  "decompose z = (if numeric_zone z then Some (z ! 0, [z ! 1, z ! 2], [z ! 3, z ! 4]) else None)"
  by (auto simp: decompose_def numeric_zone_def split: list.splits)

lemma numeric_zone_not_known: "numeric_zone z \<Longrightarrow> Map_get kKnownTZs z = None"
  by (auto simp: numeric_zone_def kKnownTZs_def split: list.splits)

lemma numeric_zone_digits:
  "numeric_zone z \<Longrightarrow> is_digit (z ! 1) \<and> is_digit (z ! 2) \<and> is_digit (z ! 3) \<and> is_digit (z ! 4)"
  by (auto simp: numeric_zone_def split: list.splits)

lemma tzOffsetInMin_zone: "tzOffsetInMin (Some z) = zone_offset z"
proof (cases "numeric_zone z")
  case True
  note d = numeric_zone_digits [OF True]
  show ?thesis
    using True d
    by (simp add: tzOffsetInMin_def zone_offset_def numeric_zone_not_known decompose_numeric
        digits_value_pair)
next
  case False
  show ?thesis
    using False
    by (simp add: tzOffsetInMin_def zone_offset_def kKnownTZs_def zone_minutes_def
        decompose_numeric numeric_zone_def is_digit_def digits_value_def hex_value_def)
qed

lemma Map_get_in_set: "Map_get m k = Some v \<Longrightarrow> (k, v) \<in> set m"
  by (induction m) (auto split: if_splits)

lemma zone_offset_bound: "\<bar>zone_offset z\<bar> \<le> 6039"
proof (cases "numeric_zone z")
  case True
  note d = numeric_zone_digits [OF True]
  have b: "0 \<le> (10 * digit_of (z ! 1) + digit_of (z ! 2)) * 60 +
                (10 * digit_of (z ! 3) + digit_of (z ! 4))"
    "(10 * digit_of (z ! 1) + digit_of (z ! 2)) * 60 +
                (10 * digit_of (z ! 3) + digit_of (z ! 4)) \<le> 6039"
    using d digit_of_bounds [of "z ! 1"] digit_of_bounds [of "z ! 2"]
      digit_of_bounds [of "z ! 3"] digit_of_bounds [of "z ! 4"] by simp_all
  show ?thesis using True b by (simp add: zone_offset_def)
next
  case False
  show ?thesis
  proof (cases "Map_get zone_minutes z")
    case None
    then show ?thesis using False by (simp add: zone_offset_def)
  next
    case (Some off)
    then have "(z, off) \<in> set zone_minutes" by (rule Map_get_in_set)
    then have "\<bar>off\<bar> \<le> 6039" by (auto simp: zone_minutes_def)
    then show ?thesis using False Some by (simp add: zone_offset_def)
  qed
qed

subsection \<open>The header\<close>

lemma indexOf_less: "indexOf xs x = Some n \<Longrightarrow> n < length xs"
  by (induction xs arbitrary: n) (auto split: if_splits)

lemma plain_word_no_backslash: "plain_word w \<Longrightarrow> CHR 0x5C \<notin> set w"
  by (auto simp: plain_word_def)

lemma plain_word_not_comma:
  assumes "plain_word w"
  shows "w \<noteq> '',''"
proof
  assume e: "w = '',''"
  have "CHR '','' \<in> set w" by (simp add: e)
  then show False using assms unfolding plain_word_def by blast
qed

lemma date_of_tokens_fields:
  assumes f: "date_field day" "date_field year" "date_field hours" "date_field minutes"
      "date_field seconds"
    and mo: "indexOf kMonthNames (take 3 mon) = Some mo"
  shows "date_of_tokens [day, mon, year, hours, '':'', minutes, '':'', seconds, zone] =
     Some (utc_instant
             (if digits_value 10 year < 50 then 2000 + digits_value 10 year
              else if digits_value 10 year < 100 then 1900 + digits_value 10 year
              else digits_value 10 year)
             mo (digits_value 10 day) (digits_value 10 hours) (digits_value 10 minutes)
             (digits_value 10 seconds) -
           zone_offset zone * 60000)"
proof -
  define Y where "Y = digits_value 10 year"
  define y where "y = (if Y < 50 then 2000 + Y else if Y < 100 then 1900 + Y else Y)"
  note b = digits_value_field
  have Yb: "0 \<le> Y" "Y < 10000" using b [OF f(2)] by (simp_all add: Y_def)
  have fy: "full_year Y = Some y"
    using Yb by (auto simp: full_year_def y_def to_number_small)
  have yb: "100 \<le> y" "y \<le> 9999" using Yb by (auto simp: y_def)
  have m: "mo < 12" using indexOf_less [OF mo] by (simp add: kMonthNames_def)
  note u = Date_UTC_exact [OF yb m b [OF f(1)] b [OF f(3)] b [OF f(4)] b [OF f(5)]]
  define t where "t = utc_instant y mo (digits_value 10 day) (digits_value 10 hours)
                        (digits_value 10 minutes) (digits_value 10 seconds)"
  have tb: "\<bar>t\<bar> \<le> 400000000000000" using u(2) by (simp add: t_def)
  have ob: "\<bar>zone_offset zone * 60000\<bar> \<le> 362340000"
    using zone_offset_bound [of zone] by (simp add: abs_mult)
  have s: "\<bar>t + - (zone_offset zone * 60000)\<bar> \<le> 400000362340000"
    using tb ob by linarith
  have a: "num_add (Some t) (Some (- (zone_offset zone * 60000))) =
             Some (t + - (zone_offset zone * 60000))"
    using s by (intro num_add_small) linarith
  have "date_of_tokens [day, mon, year, hours, '':'', minutes, '':'', seconds, zone] =
          TimeClip (num_add (Some t) (Some (- (zone_offset zone * 60000))))"
    using u(1)
    by (simp add: date_of_tokens_def parseInt_field f mo Y_def [symmetric] fy t_def
        tzOffsetInMin_zone mult.commute)
  also have "\<dots> = Some (t - zone_offset zone * 60000)"
    using s by (simp add: a TimeClip_def)
  finally show ?thesis by (simp add: t_def y_def Y_def)
qed

lemma date_header_tokens:
  assumes p: "plain_word day" "plain_word mon" "plain_word year" "plain_word hours"
      "plain_word minutes" "plain_word seconds" "plain_word zone"
    and dow: "dow = [] \<or> (\<exists>w. plain_word w \<and> dow = w @ '', '')"
  shows "\<exists>toks. getHeaderTokens td
           (dow @ day @ '' '' @ mon @ '' '' @ year @ '' '' @ hours @ '':'' @ minutes @ '':'' @
              seconds @ '' '' @ zone) '',:'' no_opts = Inr toks \<and>
         date_tokens toks = [day, mon, year, hours, '':'', minutes, '':'', seconds, zone]"
proof -
  define body where "body = day @ '' '' @ mon @ '' '' @ year @ '' '' @ hours @ '':'' @
                              minutes @ '':'' @ seconds @ '' '' @ zone"
  have nb: "CHR 0x5C \<notin> set body"
    using p by (auto simp: body_def dest: plain_word_no_backslash)
  have wb: "words_from '',:'' [] body =
      [Token day, Token mon, Token year, Token hours, Delimiter (CHR '':''), Token minutes,
       Delimiter (CHR '':''), Token seconds, Token zone]"
    unfolding body_def
    by (simp add: words_from_token [OF p(1)] words_from_token [OF p(2)]
        words_from_token [OF p(3)] words_from_token [OF p(4)] words_from_token [OF p(5)]
        words_from_token [OF p(6)] words_from_token [OF p(7)])
  show ?thesis
  proof (cases "dow = []")
    case True
    have "getHeaderTokens td body '',:'' no_opts = Inr (words_from '',:'' [] body)"
      using nb by (rule getHeaderTokens_plain)
    moreover have "date_tokens (words_from '',:'' [] body) =
                     [day, mon, year, hours, '':'', minutes, '':'', seconds, zone]"
      using plain_word_not_comma [OF p(2)] by (simp add: wb date_tokens_def)
    ultimately show ?thesis using True by (simp add: body_def)
  next
    case False
    then obtain w where w: "plain_word w" "dow = w @ '', ''" using dow by blast
    have nb': "CHR 0x5C \<notin> set (dow @ body)"
      using nb w by (auto dest: plain_word_no_backslash)
    have "words_from '',:'' [] (dow @ body) =
            Token w # Delimiter (CHR '','') # words_from '',:'' [] body"
      by (simp add: w(2) words_from_token [OF w(1)] is_wsp_def)
    then have "date_tokens (words_from '',:'' [] (dow @ body)) =
                 [day, mon, year, hours, '':'', minutes, '':'', seconds, zone]"
      by (simp add: wb date_tokens_def)
    moreover have "getHeaderTokens td (dow @ body) '',:'' no_opts =
                     Inr (words_from '',:'' [] (dow @ body))"
      using nb' by (rule getHeaderTokens_plain)
    ultimately show ?thesis by (simp add: body_def)
  qed
qed

lemma parseDateHeader_rfc5322:
  assumes f: "date_field day" "date_field year" "date_field hours" "date_field minutes"
      "date_field seconds"
    and mon: "plain_word mon" "indexOf kMonthNames (take 3 mon) = Some mo"
    and zone: "plain_word zone"
    and dow: "dow = [] \<or> (\<exists>w. plain_word w \<and> dow = w @ '', '')"
  shows "parseDateHeader td
           (dow @ day @ '' '' @ mon @ '' '' @ year @ '' '' @ hours @ '':'' @ minutes @ '':'' @
              seconds @ '' '' @ zone) =
     Inr (Some (utc_instant
                  (if digits_value 10 year < 50 then 2000 + digits_value 10 year
                   else if digits_value 10 year < 100 then 1900 + digits_value 10 year
                   else digits_value 10 year)
                  mo (digits_value 10 day) (digits_value 10 hours) (digits_value 10 minutes)
                  (digits_value 10 seconds) -
                zone_offset zone * 60000))"
proof -
  note p = date_field_plain
  obtain toks where t: "getHeaderTokens td
           (dow @ day @ '' '' @ mon @ '' '' @ year @ '' '' @ hours @ '':'' @ minutes @ '':'' @
              seconds @ '' '' @ zone) '',:'' no_opts = Inr toks"
    and d: "date_tokens toks = [day, mon, year, hours, '':'', minutes, '':'', seconds, zone]"
    using date_header_tokens [OF p [OF f(1)] mon(1) p [OF f(2)] p [OF f(3)] p [OF f(4)]
        p [OF f(5)] zone dow, of td] by blast
  show ?thesis
    unfolding parseDateHeader_def t
    by (simp add: d date_of_tokens_fields [OF f mon(2)])
qed

lemmas date_field_eval =
  date_field_def plain_word_def is_digit_def is_wsp_def kMonthNames_def

lemmas instant_eval =
  utc_instant_def DayFromYear_def days_before_month_def InLeapYear_def zone_offset_def
  numeric_zone_def zone_minutes_def digit_of_def digits_value_def hex_value_def is_digit_def

text \<open>
  C7. For every header \<open>[day-of-week ", "] day month year hours ":" minutes ":" seconds zone\<close>
  of RFC 5322, with one to four digits in each field, a month whose first three letters
  are a month name and any word for the zone, \<open>parseDateHeader\<close> returns the instant of
  the wall-clock time read as UTC minus the offset of the zone: a year below 50 counts
  from 2000 and a year from 50 to 99 from 1900; the offset of \<open>\<plusminus>HHMM\<close> is
  \<open>\<plusminus>(60 HH + MM)\<close> minutes, a zone of the table has the offset of the table, and any
  other zone has offset 0. In particular \<open>Fri, 21 Nov 1997 09:55:06 -0600\<close> is the
  instant 880127706000, which is 1997-11-21T15:55:06Z.
\<close>

theorem parseDateHeader_instant:
  assumes "date_field day" and "date_field year" and "date_field hours"
    and "date_field minutes" and "date_field seconds"
    and "plain_word mon" and "indexOf kMonthNames (take 3 mon) = Some mo"
    and "plain_word zone"
    and "dow = [] \<or> (\<exists>w. plain_word w \<and> dow = w @ '', '')"
  shows "parseDateHeader td
           (dow @ day @ '' '' @ mon @ '' '' @ year @ '' '' @ hours @ '':'' @ minutes @ '':'' @
              seconds @ '' '' @ zone) =
     Inr (Some (utc_instant
                  (if digits_value 10 year < 50 then 2000 + digits_value 10 year
                   else if digits_value 10 year < 100 then 1900 + digits_value 10 year
                   else digits_value 10 year)
                  mo (digits_value 10 day) (digits_value 10 hours) (digits_value 10 minutes)
                  (digits_value 10 seconds) -
                zone_offset zone * 60000)) \<and>
   parseDateHeader td ''Fri, 21 Nov 1997 09:55:06 -0600'' = Inr (Some 880127706000) \<and>
   utc_instant 1997 10 21 15 55 6 = 880127706000"
proof (intro conjI)
  show "parseDateHeader td
           (dow @ day @ '' '' @ mon @ '' '' @ year @ '' '' @ hours @ '':'' @ minutes @ '':'' @
              seconds @ '' '' @ zone) =
     Inr (Some (utc_instant
                  (if digits_value 10 year < 50 then 2000 + digits_value 10 year
                   else if digits_value 10 year < 100 then 1900 + digits_value 10 year
                   else digits_value 10 year)
                  mo (digits_value 10 day) (digits_value 10 hours) (digits_value 10 minutes)
                  (digits_value 10 seconds) -
                zone_offset zone * 60000))"
    using assms by (rule parseDateHeader_rfc5322)
  have f: "date_field ''21''" "date_field ''1997''" "date_field ''09''" "date_field ''55''"
    "date_field ''06''"
    by (simp_all add: date_field_eval)
  have p: "plain_word ''Nov''" "plain_word ''-0600''" "plain_word ''Fri''"
    by (simp_all add: date_field_eval)
  have m: "indexOf kMonthNames (take 3 ''Nov'') = Some 10"
    by (simp add: kMonthNames_def)
  have d: "''Fri, '' = [] \<or> (\<exists>w. plain_word w \<and> ''Fri, '' = w @ '', '')"
    using p(3) by (intro disjI2 exI [of _ "''Fri''"]) simp
  have v: "utc_instant
             (if digits_value 10 ''1997'' < 50 then 2000 + digits_value 10 ''1997''
              else if digits_value 10 ''1997'' < 100 then 1900 + digits_value 10 ''1997''
              else digits_value 10 ''1997'')
             10 (digits_value 10 ''21'') (digits_value 10 ''09'') (digits_value 10 ''55'')
             (digits_value 10 ''06'') - zone_offset ''-0600'' * 60000 = 880127706000"
    by (simp add: instant_eval)
  show "parseDateHeader td ''Fri, 21 Nov 1997 09:55:06 -0600'' = Inr (Some 880127706000)"
    using parseDateHeader_rfc5322 [OF f(1,2,3,4,5) p(1) m p(2) d, of td] unfolding v by simp
  show "utc_instant 1997 10 21 15 55 6 = 880127706000"
    by (simp add: instant_eval)
qed

theorem parseDateHeader_instant_witness:
  "parseDateHeader example_decoding ''21 Nov 97 09:55:06 +0530'' = Inr (Some 880086306000) \<and>
   parseDateHeader example_decoding ''Wed, 21 Nov 07 09:55:06 EST'' = Inr (Some 1195656906000) \<and>
   parseDateHeader example_decoding ''21 November 1997 09:55:06 XYZ'' = Inr (Some 880106106000) \<and>
   parseDateHeader example_decoding ''Fri, 21 Nov 1997 09:55:06 -0600'' = Inr (Some 880127706000)"
proof -
  have f: "date_field ''21''" "date_field ''97''" "date_field ''09''" "date_field ''55''"
    "date_field ''06''" "date_field ''07''" "date_field ''1997''"
    by (simp_all add: date_field_eval)
  have p: "plain_word ''Nov''" "plain_word ''November''" "plain_word ''+0530''"
    "plain_word ''EST''" "plain_word ''XYZ''" "plain_word ''Wed''"
    by (simp_all add: date_field_eval)
  have m: "indexOf kMonthNames (take 3 ''Nov'') = Some 10"
    "indexOf kMonthNames (take 3 ''November'') = Some 10"
    by (simp_all add: kMonthNames_def)
  have d0: "([]::string) = [] \<or> (\<exists>w. plain_word w \<and> [] = w @ '', '')" by simp
  have d1: "''Wed, '' = [] \<or> (\<exists>w. plain_word w \<and> ''Wed, '' = w @ '', '')"
    using p(6) by (intro disjI2 exI [of _ "''Wed''"]) simp
  have a: "parseDateHeader example_decoding ''21 Nov 97 09:55:06 +0530'' =
             Inr (Some 880086306000)"
    using parseDateHeader_instant [OF f(1) f(2) f(3) f(4) f(5) p(1) m(1) p(3) d0,
        of example_decoding]
    by (simp add: instant_eval)
  have b: "parseDateHeader example_decoding ''Wed, 21 Nov 07 09:55:06 EST'' =
             Inr (Some 1195656906000)"
    using parseDateHeader_instant [OF f(1) f(6) f(3) f(4) f(5) p(1) m(1) p(4) d1,
        of example_decoding]
    by (simp add: instant_eval)
  have c: "parseDateHeader example_decoding ''21 November 1997 09:55:06 XYZ'' =
             Inr (Some 880106106000)"
    using parseDateHeader_instant [OF f(1) f(7) f(3) f(4) f(5) p(2) m(2) p(5) d0,
        of example_decoding]
    by (simp add: instant_eval)
  have e: "parseDateHeader example_decoding ''Fri, 21 Nov 1997 09:55:06 -0600'' =
             Inr (Some 880127706000)"
    using parseDateHeader_instant [OF f(1) f(2) f(3) f(4) f(5) p(1) m(1) p(3) d0,
        of example_decoding]
    by simp
  show ?thesis using a b c e by simp
qed


section \<open>Registering structured decoders and encoders\<close>

lemma toLowerCase_simps:
  "toLowerCase [] = []"
  "toLowerCase (c # cs) = lower_char c # toLowerCase cs"
  by (simp_all add: toLowerCase_def)

lemma sh_addHeader [simp]:
  "sh_decoders (addHeader n d e sh) = Map_set (toLowerCase n) d (sh_decoders sh)"
  "sh_encoders (addHeader n d e sh) = Map_set (toLowerCase n) e (sh_encoders sh)"
  "sh_spellings (addHeader n d e sh) = Map_set (toLowerCase n) n (sh_spellings sh)"
  by (simp_all add: addHeader_def Let_def)

text \<open>Setting keys that are new, one after the other, appends the entries.\<close>

lemma Map_set_fresh: "k \<notin> fst ` set m \<Longrightarrow> Map_set k v m = m @ [(k, v)]"
  by (induction m) auto

lemma fold_Map_set_fresh:
  "distinct (map fst kvs) \<Longrightarrow> fst ` set kvs \<inter> fst ` set m = {} \<Longrightarrow>
     fold (\<lambda>p. Map_set (fst p) (snd p)) kvs m = m @ kvs"
proof (induction kvs arbitrary: m)
  case Nil
  show ?case by simp
next
  case (Cons p kvs)
  have fresh: "fst p \<notin> fst ` set m" using Cons.prems(2) by auto
  have "fst ` set kvs \<inter> fst ` set (m @ [p]) = {}"
    using Cons.prems by auto
  with Cons.IH [of "m @ [p]"] Cons.prems(1)
  have "fold (\<lambda>p. Map_set (fst p) (snd p)) kvs (m @ [p]) = (m @ [p]) @ kvs" by simp
  then show ?case using Map_set_fresh [OF fresh, of "snd p"] by simp
qed

text \<open>The entries that the statements of \<open>structuredHeaders.js\<close> set, in order.\<close>

fun decoder_entry :: "sh_statement \<Rightarrow> (string \<times> decoder) option" where
  "decoder_entry (AddHeader name dec enc) = Some (toLowerCase name, dec)"
| "decoder_entry (SetDecoder key dec) = Some (key, dec)"
| "decoder_entry (SetEncoder key enc) = None"

fun encoder_entry :: "sh_statement \<Rightarrow> (string \<times> encoder) option" where
  "encoder_entry (AddHeader name dec enc) = Some (toLowerCase name, enc)"
| "encoder_entry (SetDecoder key dec) = None"
| "encoder_entry (SetEncoder key enc) = Some (key, enc)"

lemma sh_decoders_fold:
  "sh_decoders (fold sh_exec sts sh) =
     fold (\<lambda>p. Map_set (fst p) (snd p)) (List.map_filter decoder_entry sts) (sh_decoders sh)"
proof (induction sts arbitrary: sh)
  case Nil
  show ?case by (simp add: List.map_filter_simps)
next
  case (Cons st sts)
  show ?case by (cases st) (simp_all add: Cons.IH List.map_filter_simps)
qed

lemma sh_encoders_fold:
  "sh_encoders (fold sh_exec sts sh) =
     fold (\<lambda>p. Map_set (fst p) (snd p)) (List.map_filter encoder_entry sts) (sh_encoders sh)"
proof (induction sts arbitrary: sh)
  case Nil
  show ?case by (simp add: List.map_filter_simps)
next
  case (Cons st sts)
  show ?case by (cases st) (simp_all add: Cons.IH List.map_filter_simps)
qed

lemma decoder_entries_eval:
  "List.map_filter decoder_entry sh_statements =
     [(''bcc'', parseAddress), (''cc'', parseAddress), (''from'', parseAddress),
      (''reply-to'', parseAddress), (''resent-bcc'', parseAddress),
      (''resent-cc'', parseAddress), (''resent-from'', parseAddress),
      (''resent-reply-to'', parseAddress), (''resent-sender'', parseAddress),
      (''resent-to'', parseAddress), (''sender'', parseAddress), (''to'', parseAddress),
      (''approved'', parseAddress), (''disposition-notification-to'', parseAddress),
      (''delivered-to'', parseAddress), (''return-receipt-to'', parseAddress),
      (''mail-reply-to'', parseAddress), (''mail-followup-to'', parseAddress),
      (''Content-Type'', parseContentType),
      (''comments'', parseUnstructured), (''keywords'', parseUnstructured),
      (''subject'', parseUnstructured), (''mime-version'', parseUnstructured),
      (''content-description'', parseUnstructured), (''user-agent'', parseUnstructured),
      (''date'', parseDate), (''resent-date'', parseDate), (''expires'', parseDate),
      (''injection-date'', parseDate), (''nntp-posting-date'', parseDate),
      (''message-id'', parseMessageID), (''resent-message-id'', parseMessageID),
      (''Content-Transfer-Encoding'', parseContentTransferEncoding)]"
  by (simp add: sh_statements_def List.map_filter_simps toLowerCase_simps lower_char_def
      is_upper_def)

lemma encoder_entries_eval:
  "List.map_filter encoder_entry sh_statements =
     [(''bcc'', writeAddress), (''cc'', writeAddress), (''from'', writeAddress),
      (''reply-to'', writeAddress), (''resent-bcc'', writeAddress),
      (''resent-cc'', writeAddress), (''resent-from'', writeAddress),
      (''resent-reply-to'', writeAddress), (''resent-sender'', writeAddress),
      (''resent-to'', writeAddress), (''sender'', writeAddress), (''to'', writeAddress),
      (''approved'', writeAddress), (''disposition-notification-to'', writeAddress),
      (''delivered-to'', writeAddress), (''return-receipt-to'', writeAddress),
      (''mail-reply-to'', writeAddress), (''mail-followup-to'', writeAddress),
      (''comments'', writeUnstructured), (''keywords'', writeUnstructured),
      (''subject'', writeUnstructured), (''mime-version'', writeUnstructured),
      (''content-description'', writeUnstructured), (''user-agent'', writeUnstructured),
      (''date'', writeDate), (''resent-date'', writeDate), (''expires'', writeDate),
      (''injection-date'', writeDate), (''nntp-posting-date'', writeDate),
      (''message-id'', writeMessageID), (''resent-message-id'', writeMessageID),
      (''Content-Transfer-Encoding'', writeUnstructured)]"
  by (simp add: sh_statements_def List.map_filter_simps toLowerCase_simps lower_char_def
      is_upper_def)

lemma sh_decoders_eval:
  "sh_decoders structuredHeaders_module = List.map_filter decoder_entry sh_statements"
proof -
  have "distinct (map fst (List.map_filter decoder_entry sh_statements))"
    unfolding decoder_entries_eval by simp
  then show ?thesis
    unfolding structuredHeaders_module_def sh_decoders_fold
    using fold_Map_set_fresh [of "List.map_filter decoder_entry sh_statements" "[]"] by simp
qed

lemma sh_encoders_eval:
  "sh_encoders structuredHeaders_module = List.map_filter encoder_entry sh_statements"
proof -
  have "distinct (map fst (List.map_filter encoder_entry sh_statements))"
    unfolding encoder_entries_eval by simp
  then show ?thesis
    unfolding structuredHeaders_module_def sh_encoders_fold
    using fold_Map_set_fresh [of "List.map_filter encoder_entry sh_statements" "[]"] by simp
qed

lemma builtin_decoded_eval:
  "builtin_decoded =
     [''bcc'', ''cc'', ''from'', ''reply-to'', ''resent-bcc'', ''resent-cc'', ''resent-from'',
      ''resent-reply-to'', ''resent-sender'', ''resent-to'', ''sender'', ''to'', ''approved'',
      ''disposition-notification-to'', ''delivered-to'', ''return-receipt-to'',
      ''mail-reply-to'', ''mail-followup-to'', ''content-type'', ''comments'', ''keywords'',
      ''subject'', ''mime-version'', ''content-description'', ''user-agent'', ''date'',
      ''resent-date'', ''expires'', ''injection-date'', ''nntp-posting-date'', ''message-id'',
      ''resent-message-id'', ''content-transfer-encoding'']"
  unfolding builtin_decoded_def sh_decoders_eval decoder_entries_eval
  by (simp add: toLowerCase_simps lower_char_def is_upper_def)

lemma builtin_encoded_eval:
  "builtin_encoded =
     [''bcc'', ''cc'', ''from'', ''reply-to'', ''resent-bcc'', ''resent-cc'', ''resent-from'',
      ''resent-reply-to'', ''resent-sender'', ''resent-to'', ''sender'', ''to'', ''approved'',
      ''disposition-notification-to'', ''delivered-to'', ''return-receipt-to'',
      ''mail-reply-to'', ''mail-followup-to'', ''comments'', ''keywords'',
      ''subject'', ''mime-version'', ''content-description'', ''user-agent'', ''date'',
      ''resent-date'', ''expires'', ''injection-date'', ''nntp-posting-date'', ''message-id'',
      ''resent-message-id'', ''content-transfer-encoding'']"
  unfolding builtin_encoded_def sh_encoders_eval encoder_entries_eval
  by (simp add: toLowerCase_simps lower_char_def is_upper_def)

lemma distinct_builtin_decoded: "distinct builtin_decoded"
  unfolding builtin_decoded_eval by simp

lemma distinct_builtin_encoded: "distinct builtin_encoded"
  unfolding builtin_encoded_eval by simp

lemma set_Set_add [simp]: "set (Set_add k s) = insert k (set s)"
  by (auto simp: Set_add_def)

lemma addStructuredDecoder_fields [simp]:
  "forbiddenHeaders (snd (addStructuredDecoder h d reg)) = forbiddenHeaders reg"
  "encoders (snd (addStructuredDecoder h d reg)) = encoders reg"
  by (simp_all add: addStructuredDecoder_def Let_def)

lemma addStructuredEncoder_fields [simp]:
  "forbiddenHeaders (addStructuredEncoder h e reg) = forbiddenHeaders reg"
  "structuredDecoders (addStructuredEncoder h e reg) = structuredDecoders reg"
  "encoders (addStructuredEncoder h e reg) = Map_set (toLowerCase h) e (encoders reg)"
  by (simp_all add: addStructuredEncoder_def Let_def)

lemma addStructuredDecoder_allowed:
  "toLowerCase h \<notin> set (forbiddenHeaders reg) \<Longrightarrow>
     fst (addStructuredDecoder h d reg) = None \<and>
     structuredDecoders (snd (addStructuredDecoder h d reg)) =
       Map_set (toLowerCase h) d (structuredDecoders reg)"
  by (simp add: addStructuredDecoder_def Let_def Set_has_def)

lemma addStructuredDecoder_forbidden:
  "toLowerCase h \<in> set (forbiddenHeaders reg) \<Longrightarrow>
     addStructuredDecoder h d reg = (Some (Error (''Cannot override header: '' @ h)), reg)"
  by (simp add: addStructuredDecoder_def Let_def Set_has_def)

lemma load_decoders_fresh:
  assumes "distinct (map (\<lambda>p. toLowerCase (fst p)) ps)"
    and "\<forall>p \<in> set ps. toLowerCase (fst p) \<notin> set (forbiddenHeaders reg)"
  shows "fst (load_decoders ps reg) = None \<and>
         set (forbiddenHeaders (snd (load_decoders ps reg))) =
           set (forbiddenHeaders reg) \<union> (\<lambda>p. toLowerCase (fst p)) ` set ps \<and>
         encoders (snd (load_decoders ps reg)) = encoders reg"
  using assms
proof (induction ps arbitrary: reg)
  case Nil
  show ?case by simp
next
  case (Cons p ps)
  have ok: "toLowerCase (fst p) \<notin> set (forbiddenHeaders reg)" using Cons.prems(2) by simp
  obtain reg1 where r1: "addStructuredDecoder (fst p) (snd p) reg = (None, reg1)"
    using addStructuredDecoder_allowed [OF ok, of "snd p"]
    by (cases "addStructuredDecoder (fst p) (snd p) reg") auto
  have f1: "forbiddenHeaders reg1 = forbiddenHeaders reg" and e1: "encoders reg1 = encoders reg"
    using addStructuredDecoder_fields [of "fst p" "snd p" reg] r1 by simp_all
  define reg2 where
    "reg2 = reg1\<lparr>forbiddenHeaders := Set_add (toLowerCase (fst p)) (forbiddenHeaders reg1)\<rparr>"
  have step: "load_decoders (p # ps) reg = load_decoders ps reg2"
    by (simp add: r1 reg2_def)
  have f2: "set (forbiddenHeaders reg2) = insert (toLowerCase (fst p)) (set (forbiddenHeaders reg))"
    by (simp add: reg2_def f1)
  have e2: "encoders reg2 = encoders reg" by (simp add: reg2_def e1)
  have "distinct (map (\<lambda>p. toLowerCase (fst p)) ps)" using Cons.prems(1) by simp
  moreover have "\<forall>q \<in> set ps. toLowerCase (fst q) \<notin> set (forbiddenHeaders reg2)"
  proof
    fix q assume q: "q \<in> set ps"
    then have "toLowerCase (fst q) \<in> (\<lambda>p. toLowerCase (fst p)) ` set ps" by (rule imageI)
    moreover have "toLowerCase (fst p) \<notin> (\<lambda>p. toLowerCase (fst p)) ` set ps"
      using Cons.prems(1) by simp
    ultimately have "toLowerCase (fst q) \<noteq> toLowerCase (fst p)" by metis
    moreover have "toLowerCase (fst q) \<notin> set (forbiddenHeaders reg)"
      using Cons.prems(2) q by simp
    ultimately show "toLowerCase (fst q) \<notin> set (forbiddenHeaders reg2)"
      by (simp add: f2)
  qed
  ultimately have ih: "fst (load_decoders ps reg2) = None \<and>
         set (forbiddenHeaders (snd (load_decoders ps reg2))) =
           set (forbiddenHeaders reg2) \<union> (\<lambda>p. toLowerCase (fst p)) ` set ps \<and>
         encoders (snd (load_decoders ps reg2)) = encoders reg2"
    by (rule Cons.IH)
  show ?case unfolding step using ih f2 e2 by auto
qed

lemma load_encoders_fields:
  "forbiddenHeaders (load_encoders ps reg) = forbiddenHeaders reg"
  "encoders (load_encoders ps reg) =
     fold (\<lambda>p. Map_set (fst p) (snd p)) (map (\<lambda>p. (toLowerCase (fst p), snd p)) ps) (encoders reg)"
  by (induction ps arbitrary: reg) simp_all

text \<open>Loading the two modules throws nothing, forbids exactly the lower-cased names of
  the built-in decoders, and registers the built-in encoders under their lower-cased
  names.\<close>

lemma jsmime_loaded_ok:
  "fst jsmime_loaded = None"
  "set (forbiddenHeaders (snd jsmime_loaded)) = set builtin_decoded"
  "encoders (snd jsmime_loaded) =
     map (\<lambda>p. (toLowerCase (fst p), snd p)) (sh_encoders structuredHeaders_module)"
proof -
  define reg0 where "reg0 = \<lparr> structuredDecoders = [], forbiddenHeaders = [], encoders = [],
               preferredSpellings = sh_spellings structuredHeaders_module \<rparr>"
  have d: "distinct (map (\<lambda>p. toLowerCase (fst p)) (sh_decoders structuredHeaders_module))"
    using distinct_builtin_decoded by (simp add: builtin_decoded_def comp_def)
  have l: "fst (load_decoders (sh_decoders structuredHeaders_module) reg0) = None \<and>
         set (forbiddenHeaders (snd (load_decoders (sh_decoders structuredHeaders_module) reg0))) =
           set (forbiddenHeaders reg0) \<union>
           (\<lambda>p. toLowerCase (fst p)) ` set (sh_decoders structuredHeaders_module) \<and>
         encoders (snd (load_decoders (sh_decoders structuredHeaders_module) reg0)) = encoders reg0"
    by (rule load_decoders_fresh [OF d]) (simp add: reg0_def)
  obtain reg1 where r1: "load_decoders (sh_decoders structuredHeaders_module) reg0 = (None, reg1)"
    using l by (cases "load_decoders (sh_decoders structuredHeaders_module) reg0") auto
  have j: "jsmime_loaded = (None, load_encoders (sh_encoders structuredHeaders_module) reg1)"
    using r1 by (simp add: jsmime_loaded_def reg0_def)
  show "fst jsmime_loaded = None" by (simp add: j)
  show "set (forbiddenHeaders (snd jsmime_loaded)) = set builtin_decoded"
    using l r1 by (auto simp: j load_encoders_fields reg0_def builtin_decoded_def)
  have e1: "encoders reg1 = []" using l r1 by (simp add: reg0_def)
  have de: "distinct (map fst (map (\<lambda>p. (toLowerCase (fst p), snd p))
                (sh_encoders structuredHeaders_module)))"
    using distinct_builtin_encoded by (simp add: builtin_encoded_def comp_def)
  show "encoders (snd jsmime_loaded) =
     map (\<lambda>p. (toLowerCase (fst p), snd p)) (sh_encoders structuredHeaders_module)"
    using fold_Map_set_fresh [OF de, of "[]"] by (simp add: j load_encoders_fields e1)
qed

lemma forbiddenHeaders_register [simp]:
  "forbiddenHeaders (register c reg) = forbiddenHeaders reg"
  by (cases c) simp_all

lemma forbiddenHeaders_registry_after:
  "set (forbiddenHeaders (registry_after calls)) = set builtin_decoded"
proof -
  have "forbiddenHeaders (fold register calls reg) = forbiddenHeaders reg" for reg
    by (induction calls arbitrary: reg) simp_all
  then show ?thesis by (simp add: registry_after_def jsmime_loaded_ok)
qed

text \<open>
  C3, as stated. The claim includes that \<open>addStructuredEncoder\<close> called with the name of a
  built-in structured header throws and leaves the registry entry unchanged.
  \<open>Subject\<close> is a built-in header whose encoder is \<open>writeUnstructured\<close>; registering
  another encoder under \<open>SUBJECT\<close> replaces it (the function has no way to throw).
\<close>

theorem addStructuredEncoder_overrides_builtin:
  "toLowerCase ''SUBJECT'' \<in> set builtin_encoded \<and>
   Map_get (encoders (registry_after [])) ''subject'' = Some writeUnstructured \<and>
   Map_get (encoders (addStructuredEncoder ''SUBJECT'' (UserEncoder 0) (registry_after [])))
     ''subject'' = Some (UserEncoder 0)"
proof -
  have l: "toLowerCase ''SUBJECT'' = ''subject''"
    by (simp add: toLowerCase_simps lower_char_def is_upper_def)
  have e: "Map_get (encoders (registry_after [])) ''subject'' = Some writeUnstructured"
    unfolding registry_after_def
    by (simp add: jsmime_loaded_ok sh_encoders_eval encoder_entries_eval toLowerCase_simps
        lower_char_def is_upper_def)
  show ?thesis
    by (simp add: l e builtin_encoded_eval Map_get_Map_set)
qed

text \<open>
  C3, amended. In every state of the registries that user code can reach,
  \<open>addStructuredDecoder\<close> called with a name that is, in any case, the name of a built-in
  structured decoder throws and leaves the registries as they are, and called with any
  other name it succeeds and registers the decoder under the lower-cased name.
  \<open>addStructuredEncoder\<close> has no such guard: with every name, built-in or not, it succeeds
  and registers the encoder under the lower-cased name, replacing what was there.
\<close>

theorem registration_of_structured_headers:
  "(toLowerCase header \<in> set builtin_decoded \<longrightarrow>
      addStructuredDecoder header dec (registry_after calls) =
        (Some (Error (''Cannot override header: '' @ header)), registry_after calls)) \<and>
   (toLowerCase header \<notin> set builtin_decoded \<longrightarrow>
      fst (addStructuredDecoder header dec (registry_after calls)) = None \<and>
      Map_get (structuredDecoders (snd (addStructuredDecoder header dec (registry_after calls))))
        (toLowerCase header) = Some dec) \<and>
   Map_get (encoders (addStructuredEncoder header enc (registry_after calls)))
     (toLowerCase header) = Some enc"
  using addStructuredDecoder_forbidden [of header "registry_after calls" dec]
    addStructuredDecoder_allowed [of header "registry_after calls" dec]
  by (simp add: forbiddenHeaders_registry_after Map_get_Map_set)

theorem registration_of_structured_headers_witness:
  "toLowerCase ''FROM'' \<in> set builtin_decoded \<and>
   addStructuredDecoder ''FROM'' (UserDecoder 1) (registry_after [AddEncoder ''X-Mine'' (UserEncoder 2)]) =
     (Some (Error (''Cannot override header: '' @ ''FROM'')),
      registry_after [AddEncoder ''X-Mine'' (UserEncoder 2)]) \<and>
   toLowerCase ''X-Mine'' \<notin> set builtin_decoded \<and>
   fst (addStructuredDecoder ''X-Mine'' (UserDecoder 1)
          (registry_after [AddEncoder ''X-Mine'' (UserEncoder 2)])) = None"
proof -
  have a: "toLowerCase ''FROM'' \<in> set builtin_decoded"
    by (simp add: builtin_decoded_eval toLowerCase_simps lower_char_def is_upper_def)
  have b: "toLowerCase ''X-Mine'' \<notin> set builtin_decoded"
    by (simp add: builtin_decoded_eval toLowerCase_simps lower_char_def is_upper_def)
  show ?thesis
    using a b
      registration_of_structured_headers [of "''FROM''" "UserDecoder 1"
        "[AddEncoder ''X-Mine'' (UserEncoder 2)]" "UserEncoder 0"]
      registration_of_structured_headers [of "''X-Mine''" "UserDecoder 1"
        "[AddEncoder ''X-Mine'' (UserEncoder 2)]" "UserEncoder 0"]
    by blast
qed

section \<open>Continuations of a parameter\<close>






lemma parseInt_rounds:
  "parseInt ''9007199254740993'' = Some 9007199254740992 \<and>
   index_key ''9007199254740993'' = index_key ''9007199254740992''"
  by (simp add: parseInt_def parse_magnitude_def index_key_def digits_value_def hex_value_def
      is_digit_def js_whitespace_def to_number_def to_double_def Let_def bit_length_eval)


subsection \<open>Maps with distinct keys\<close>


subsection \<open>The second loop\<close>












subsection \<open>The third loop\<close>







subsection \<open>A repeated index\<close>

lemmas params_eval =
  scan_tokens_def scan_token_def push_pending_def endsWith_star_def
  collect_def collect_pair_def add_continuation_def add_segment_def bad_number_def
  slice_def Map_has_def index_key_def to_double_def digits_value_def hex_value_def is_digit_def
  build_values_def set_continuation_def set_charset_def continuation_value_def
  join_segments_def scan_entry.simps array_length_def Let_def





lemma zero_repeated_examples:
  "parseParameterHeader example_decoding
      (''attachment; filename*0*=utf-8'' @ [CHR 0x27, CHR 0x27] @ ''foo; filename*0=bar'')
      False True =
     Inr \<lparr>param_values = [(''filename'', ''utf-8'' @ [CHR 0x27, CHR 0x27] @ ''foo'')],
          preSemi = ''attachment''\<rparr> \<and>
   parseParameterHeader example_decoding ''attachment; filename*0=foo; filename*0*=bar''
      False True =
     Inr \<lparr>param_values = [], preSemi = ''attachment''\<rparr>"
proof -
  have t1: "getHeaderTokens example_decoding
      (''; filename*0*=utf-8'' @ [CHR 0x27, CHR 0x27] @ ''foo; filename*0=bar'') '';=''
      \<lparr>qstring = True, dliteral = False, comments = False, rfc2047 = False\<rparr> =
   Inr [Delimiter (CHR '';''), Token ''filename*0*'', Delimiter (CHR ''=''),
        Token (''utf-8'' @ [CHR 0x27, CHR 0x27] @ ''foo''),
        Delimiter (CHR '';''), Token ''filename*0'', Delimiter (CHR ''=''), Token ''bar'']"
    by (simp add: tokenizer_eval cong: let_weak_cong)
  have t2: "getHeaderTokens example_decoding ''; filename*0=foo; filename*0*=bar'' '';=''
      \<lparr>qstring = True, dliteral = False, comments = False, rfc2047 = False\<rparr> =
   Inr [Delimiter (CHR '';''), Token ''filename*0'', Delimiter (CHR ''=''), Token ''foo'',
        Delimiter (CHR '';''), Token ''filename*0*'', Delimiter (CHR ''=''), Token ''bar'']"
    by (simp add: tokenizer_eval cong: let_weak_cong)
  have m1: "\<And>v. scan_tokens True
      [Delimiter (CHR '';''), Token ''filename*0*'', Delimiter (CHR ''=''), Token v,
        Delimiter (CHR '';''), Token ''filename*0'', Delimiter (CHR ''=''), Token ''bar''] =
     [(''filename*0*'', percent_decode v), (''filename*0'', ''bar'')]"
    by (simp add: params_eval)
  have m2: "scan_tokens True
      [Delimiter (CHR '';''), Token ''filename*0'', Delimiter (CHR ''=''), Token ''foo'',
        Delimiter (CHR '';''), Token ''filename*0*'', Delimiter (CHR ''=''), Token ''bar''] =
     [(''filename*0'', ''foo''), (''filename*0*'', ''bar'')]"
    by (simp add: params_eval)
  have c1: "\<And>v. collect [(''filename*0*'', v), (''filename*0'', ''bar'')] =
     \<lparr>simpleValues = [], charsetValues = [],
      continuationValues =
        [(''filename'', \<lparr>valid = False, hasCharset = Some False, segments = [(0, v)]\<rparr>)]\<rparr>"
    by (simp add: params_eval)
  have c2: "collect [(''filename*0'', ''foo''), (''filename*0*'', ''bar'')] =
     \<lparr>simpleValues = [], charsetValues = [],
      continuationValues =
        [(''filename'', \<lparr>valid = False, hasCharset = Some True, segments = [(0, ''foo'')]\<rparr>)]\<rparr>"
    by (simp add: params_eval)
  have b1: "\<And>v. build_values example_decoding True
      \<lparr>simpleValues = [], charsetValues = [],
       continuationValues =
         [(''filename'', \<lparr>valid = False, hasCharset = Some False, segments = [(0, v)]\<rparr>)]\<rparr> =
      [(''filename'', v)]"
    by (simp add: params_eval)
  have b2: "build_values example_decoding True
      \<lparr>simpleValues = [], charsetValues = [],
       continuationValues =
         [(''filename'', \<lparr>valid = False, hasCharset = Some True, segments = [(0, ''foo'')]\<rparr>)]\<rparr> =
      []"
    by (simp add: params_eval decode2231Value_def example_decoding_def toLowerCase_def)
  have t: "takeWhile (\<lambda>c. \<not> is_wsp c) (trim ''attachment'') = ''attachment''"
    by (simp add: trim_def trimLeft_def trimRight_def js_whitespace_def is_wsp_def)
  have r1: "parseParameterHeader example_decoding
      (''attachment; filename*0*=utf-8'' @ [CHR 0x27, CHR 0x27] @ ''foo; filename*0=bar'')
      False True =
     Inr \<lparr>param_values = [(''filename'', ''utf-8'' @ [CHR 0x27, CHR 0x27] @ ''foo'')],
          preSemi = ''attachment''\<rparr>"
    using t1 unfolding parseParameterHeader_def
    by (simp add: m1 c1 b1 t)
  have r2: "parseParameterHeader example_decoding ''attachment; filename*0=foo; filename*0*=bar''
      False True =
     Inr \<lparr>param_values = [], preSemi = ''attachment''\<rparr>"
    using t2 unfolding parseParameterHeader_def
    by (simp add: m2 c2 b2 t)
  show ?thesis using r1 r2 by simp
qed



end
